theory Spec2Isabelle
  imports Main "HOL-Library.Sublist"
begin

section \<open>VerificationRequest.js: the state machine for verification requests\<close>

text \<open>
  A shallow embedding of \<^verbatim>\<open>src/crypto/verification/request/VerificationRequest.js\<close>.
  Every method of the class is a function from the request (a record of the fields of
  \<^verbatim>\<open>this\<close>) to the request after the call. A call that can throw returns an outcome
  together with the request as the throw leaves it, since JavaScript keeps every field
  assignment made before the exception.

  The source file closes the body of \<^verbatim>\<open>handleEvent\<close> twice (lines 486 and 487). The model
  reads the second brace as a typing slip and takes every method that follows as a
  member of the class, as the calls to them from the earlier methods require.
\<close>

subsection \<open>Constants\<close>

definition VERIFICATION_REQUEST_TIMEOUT :: int where
  "VERIFICATION_REQUEST_TIMEOUT = 10 * 60 * 1000"

definition VERIFICATION_REQUEST_MARGIN :: int where
  "VERIFICATION_REQUEST_MARGIN = 3 * 1000"

definition EVENT_PREFIX :: string where
  "EVENT_PREFIX = ''m.key.verification.''"

definition REQUEST_TYPE :: string where
  "REQUEST_TYPE = EVENT_PREFIX @ ''request''"

definition START_TYPE :: string where
  "START_TYPE = EVENT_PREFIX @ ''start''"

definition CANCEL_TYPE :: string where
  "CANCEL_TYPE = EVENT_PREFIX @ ''cancel''"

definition DONE_TYPE :: string where
  "DONE_TYPE = EVENT_PREFIX @ ''done''"

definition READY_TYPE :: string where
  "READY_TYPE = EVENT_PREFIX @ ''ready''"

text \<open>
  A phase is a JavaScript value. The six phase constants are numbers, but
  \<^verbatim>\<open>_calculatePhaseTransitions\<close> also stores a string in a \<^verbatim>\<open>phase\<close> field, and \<^verbatim>\<open>===\<close>
  never identifies a number with a string: hence two constructors.
\<close>

datatype jsval = Num int | Str string

definition PHASE_UNSENT :: jsval where "PHASE_UNSENT = Num 1"
definition PHASE_REQUESTED :: jsval where "PHASE_REQUESTED = Num 2"
definition PHASE_READY :: jsval where "PHASE_READY = Num 3"
definition PHASE_STARTED :: jsval where "PHASE_STARTED = Num 4"
definition PHASE_CANCELLED :: jsval where "PHASE_CANCELLED = Num 5"
definition PHASE_DONE :: jsval where "PHASE_DONE = Num 6"

subsection \<open>Events, verifiers and the request\<close>

text \<open>
  The content of an event, as far as the class reads it. \<open>methods = None\<close> stands for a
  \<^verbatim>\<open>methods\<close> field that is not an array, \<open>from_device = None\<close> for one that is not a
  string, \<open>c_method = None\<close> for an absent \<^verbatim>\<open>method\<close> field (and so for \<^verbatim>\<open>code\<close> and
  \<^verbatim>\<open>reason\<close>, which the class never reads from an inbound event). An event whose
  \<^verbatim>\<open>getContent()\<close> is \<^verbatim>\<open>null\<close> or \<^verbatim>\<open>undefined\<close> has \<open>getContent = None\<close>.
\<close>

record content =
  methods :: "string list option"
  from_device :: "string option"
  c_method :: "string option"
  c_code :: "string option"
  c_reason :: "string option"

record event =
  getSender :: string
  getContent :: "content option"

text \<open>
  A verifier is opaque to the class: it is built by a constructor taken from the
  registry \<^verbatim>\<open>_verificationMethods\<close> and is then sent \<^verbatim>\<open>handleEvent\<close> and \<^verbatim>\<open>cancel\<close>. The
  model keeps the constructor's arguments and logs the two calls. \<open>VerifierCtor name evs\<close>
  is a constructor whose instances carry \<open>evs\<close> in their \<^verbatim>\<open>events\<close> property.
\<close>

datatype verifierCtor = VerifierCtor string "string list option"

record verifier =
  ctor :: verifierCtor
  v_userId :: string
  v_deviceId :: "string option"
  v_startEvent :: "event option"
  events :: "string list option"
  handled :: "event list"
  cancelled :: "(string \<times> string) list"

fun construct :: "verifierCtor \<Rightarrow> string \<Rightarrow> string option \<Rightarrow> event option \<Rightarrow> verifier" where
  "construct (VerifierCtor name evs) u d s =
     \<lparr>ctor = VerifierCtor name evs, v_userId = u, v_deviceId = d, v_startEvent = s,
      events = evs, handled = [], cancelled = []\<rparr>"

text \<open>
  A JavaScript \<^verbatim>\<open>Map\<close> holds its entries (\<^verbatim>\<open>get\<close>, \<^verbatim>\<open>set\<close>) apart from the properties of
  the object (\<^verbatim>\<open>m[k]\<close>). The class fills its two maps through \<^verbatim>\<open>set\<close> only; a key such as
  \<^verbatim>\<open>"m.key.verification.done"\<close> is no property of \<^verbatim>\<open>Map.prototype\<close> either.
\<close>

record 'v jsmap =
  entries :: "string \<rightharpoonup> 'v"
  props :: "string \<rightharpoonup> 'v"

definition new_Map :: "'v jsmap" where
  "new_Map = \<lparr>entries = Map.empty, props = Map.empty\<rparr>"

definition map_get :: "'v jsmap \<Rightarrow> string \<Rightarrow> 'v option" where
  "map_get m k = entries m k"

definition map_set :: "'v jsmap \<Rightarrow> string \<Rightarrow> 'v \<Rightarrow> 'v jsmap" where
  "map_set m k v = m\<lparr>entries := (entries m)(k \<mapsto> v)\<rparr>"

definition map_prop :: "'v jsmap \<Rightarrow> string \<Rightarrow> 'v option" where
  "map_prop m k = props m k"

text \<open>What \<^verbatim>\<open>channel.send(type, content)\<close> is given.\<close>

datatype payload = Methods "string list" | CancelInfo string string

text \<open>
  The fields of \<^verbatim>\<open>this\<close>. \<open>initiatedByMe\<close>, \<open>cancellingUserId\<close>, \<open>requestEvent\<close>,
  \<open>readyEvent\<close> and \<open>verifier\<close> are \<^verbatim>\<open>undefined\<close> (\<open>None\<close>) until assigned. \<open>changes\<close>
  counts the \<^verbatim>\<open>"change"\<close> events emitted, \<open>sent\<close> lists the calls of \<^verbatim>\<open>channel.send\<close>.
\<close>

record request =
  commonMethods :: "string list"
  phase :: jsval
  eventsByUs :: "event jsmap"
  eventsByThem :: "event jsmap"
  observeOnly :: bool
  verifier :: "verifier option"
  initiatedByMe :: "bool option"
  cancellingUserId :: "string option"
  requestEvent :: "event option"
  readyEvent :: "event option"
  changes :: nat
  sent :: "(string \<times> payload) list"

text \<open>
  What the constructor is given and never reassigns: the registry
  \<^verbatim>\<open>_verificationMethods\<close> (a \<^verbatim>\<open>Map\<close>, in insertion order), the client's user and device
  id, the channel's \<^verbatim>\<open>userId\<close> and the static \<^verbatim>\<open>canCreateRequest\<close> of the channel's class.
\<close>

record env =
  verificationMethods :: "(string \<times> verifierCtor) list"
  getUserId :: string
  getDeviceId :: string
  userId :: string
  canCreateRequest :: "string \<Rightarrow> bool"

datatype error = UnknownMethodError | TypeError | AddressingError

datatype 'a outcome = Returned 'a | Thrown error

subsection \<open>The constructor and the stateless validation\<close>

definition setPhase :: "jsval \<Rightarrow> bool \<Rightarrow> request \<Rightarrow> request" where
  "setPhase p notify r =
     r\<lparr>phase := p, changes := (if notify then changes r + 1 else changes r)\<rparr>"

definition new_VerificationRequest :: request where
  "new_VerificationRequest =
     \<lparr>commonMethods = [], phase = PHASE_UNSENT, eventsByUs = new_Map,
      eventsByThem = new_Map, observeOnly = False, verifier = None,
      initiatedByMe = None, cancellingUserId = None, requestEvent = None,
      readyEvent = None, changes = 0, sent = []\<rparr>"

text \<open>
  \<^verbatim>\<open>validateEvent(type, event, timestamp, client)\<close>. The timestamp is \<open>None\<close> when
  \<^verbatim>\<open>Number.isFinite\<close> refuses it; \<open>now\<close> is \<^verbatim>\<open>Date.now()\<close>. Both are whole milliseconds,
  on which the subtraction of the source is exact. Reading a property of an absent
  content throws.
\<close>

definition validateEvent :: "string \<Rightarrow> event \<Rightarrow> int option \<Rightarrow> int \<Rightarrow> bool outcome" where
  "validateEvent type ev timestamp now =
     (let timing =
            (case timestamp of
               None \<Rightarrow> Returned True
             | Some ts \<Rightarrow>
                 (let elapsed = now - ts
                  in if elapsed > (VERIFICATION_REQUEST_TIMEOUT - VERIFICATION_REQUEST_MARGIN) \<or>
                        elapsed < - (VERIFICATION_REQUEST_TIMEOUT div 2)
                     then Returned False else Returned True))
      in if \<not> prefix EVENT_PREFIX type then Returned False
         else case getContent ev of
                None \<Rightarrow>
                  if type = REQUEST_TYPE \<or> type = READY_TYPE \<or> type = START_TYPE
                  then Thrown TypeError else timing
              | Some c \<Rightarrow>
                  if (type = REQUEST_TYPE \<or> type = READY_TYPE) \<and> methods c = None
                  then Returned False
                  else if (type = REQUEST_TYPE \<or> type = READY_TYPE \<or> type = START_TYPE) \<and>
                          (case from_device c of None \<Rightarrow> True | Some d \<Rightarrow> length d = 0)
                  then Returned False
                  else timing)"

subsection \<open>Getters\<close>

definition requested :: "request \<Rightarrow> bool" where
  "requested r = (phase r = PHASE_REQUESTED)"

definition cancelled_phase :: "request \<Rightarrow> bool" where
  "cancelled_phase r = (phase r = PHASE_CANCELLED)"

definition ready :: "request \<Rightarrow> bool" where
  "ready r = (phase r = PHASE_READY)"

definition started :: "request \<Rightarrow> bool" where
  "started r = (phase r = PHASE_STARTED)"

definition done_phase :: "request \<Rightarrow> bool" where
  "done_phase r = (phase r = PHASE_DONE)"

definition pending :: "request \<Rightarrow> bool" where
  "pending r = (phase r \<noteq> PHASE_UNSENT \<and> phase r \<noteq> PHASE_DONE \<and> phase r \<noteq> PHASE_CANCELLED)"

text \<open>The truth value of a field that is \<^verbatim>\<open>undefined\<close> or a boolean.\<close>

definition truthy :: "bool option \<Rightarrow> bool" where
  "truthy b = (b = Some True)"

subsection \<open>Looking up recorded events, and their provenance\<close>

definition getEventByEither :: "request \<Rightarrow> string \<Rightarrow> event option" where
  "getEventByEither r type =
     (case map_get (eventsByThem r) type of
        Some e \<Rightarrow> Some e
      | None \<Rightarrow> map_get (eventsByUs r) type)"

definition getEventByOther :: "env \<Rightarrow> request \<Rightarrow> string \<Rightarrow> string \<Rightarrow> event option" where
  "getEventByOther env r type notSender =
     (if notSender = getUserId env then map_get (eventsByThem r) type
      else map_get (eventsByUs r) type)"

definition getEventBy :: "env \<Rightarrow> request \<Rightarrow> string \<Rightarrow> string \<Rightarrow> event option" where
  "getEventBy env r type sndr =
     (if sndr = getUserId env then map_get (eventsByUs r) type
      else map_get (eventsByThem r) type)"

definition wasSentByOwnUser :: "env \<Rightarrow> event \<Rightarrow> bool" where
  "wasSentByOwnUser env ev = (getSender ev = getUserId env)"

definition wasSentByOwnDevice :: "env \<Rightarrow> event \<Rightarrow> bool" where
  "wasSentByOwnDevice env ev =
     (if \<not> wasSentByOwnUser env ev then False
      else case getContent ev of
             None \<Rightarrow> False
           | Some c \<Rightarrow> if from_device c \<noteq> Some (getDeviceId env) then False else True)"

subsection \<open>Computing the phase transitions\<close>

datatype transition = Transition (t_phase: jsval) (t_event: "event option")

text \<open>The local function \<^verbatim>\<open>phase()\<close>: the phase of the last transition pushed so far.\<close>

definition top_phase :: "transition list \<Rightarrow> jsval" where
  "top_phase transitions = t_phase (last transitions)"

text \<open>
  \<^verbatim>\<open>_calculatePhaseTransitions()\<close>. The start transition is pushed with \<^verbatim>\<open>START_TYPE\<close>, a
  string, as its phase, and the two done events are read as properties of the maps
  (\<^verbatim>\<open>this._eventsByUs[DONE_TYPE]\<close>), as the source has them. \<^verbatim>\<open>requestEvent.getSender()\<close>
  is evaluated only when the last phase is \<^verbatim>\<open>PHASE_REQUESTED\<close>, where the request event
  exists.
\<close>

definition calculatePhaseTransitions :: "env \<Rightarrow> request \<Rightarrow> transition list" where
  "calculatePhaseTransitions env r =
     (let transitions0 = [Transition PHASE_UNSENT None];
          cancelEvent = getEventByEither r CANCEL_TYPE
      in if cancelEvent \<noteq> None
         then transitions0 @ [Transition PHASE_CANCELLED cancelEvent]
         else
           let requestEvent = getEventByEither r REQUEST_TYPE;
               transitions1 =
                 (case requestEvent of
                    None \<Rightarrow> transitions0
                  | Some re \<Rightarrow>
                      (let pushed = transitions0 @ [Transition PHASE_REQUESTED requestEvent];
                           readyEvent = getEventByOther env r READY_TYPE (getSender re)
                       in if readyEvent \<noteq> None
                          then pushed @ [Transition PHASE_READY readyEvent]
                          else pushed));
               startEvent = getEventByEither r START_TYPE;
               transitions2 =
                 (case startEvent of
                    None \<Rightarrow> transitions1
                  | Some se \<Rightarrow>
                      (let fromRequestPhase =
                             (top_phase transitions1 = PHASE_REQUESTED \<and>
                              (case requestEvent of
                                 None \<Rightarrow> False
                               | Some re \<Rightarrow> getSender re \<noteq> getSender se));
                           fromUnsentPhase =
                             (top_phase transitions1 = PHASE_UNSENT \<and>
                              canCreateRequest env START_TYPE)
                       in if fromRequestPhase \<or> top_phase transitions1 = PHASE_READY \<or>
                             fromUnsentPhase
                          then transitions1 @ [Transition (Str START_TYPE) startEvent]
                          else transitions1));
               ourDoneEvent = map_prop (eventsByUs r) DONE_TYPE;
               theirDoneEvent = map_prop (eventsByThem r) DONE_TYPE
           in if ourDoneEvent \<noteq> None \<and> theirDoneEvent \<noteq> None \<and>
                 top_phase transitions2 = Str START_TYPE
              then transitions2 @ [Transition PHASE_DONE None]
              else transitions2)"

subsection \<open>Creating a verifier\<close>

record target =
  target_userId :: string
  target_deviceId :: "string option"

definition notOwnDevice :: "env \<Rightarrow> event option \<Rightarrow> bool" where
  "notOwnDevice env eo = (case eo of None \<Rightarrow> False | Some e \<Rightarrow> \<not> wasSentByOwnDevice env e)"

definition getVerifierTarget ::
    "env \<Rightarrow> request \<Rightarrow> event option \<Rightarrow> target option \<Rightarrow> target outcome" where
  "getVerifierTarget env r startEvent targetDevice =
     (case targetDevice of
        Some t \<Rightarrow> Returned t
      | None \<Rightarrow>
          (let targetEvent =
                 (if notOwnDevice env startEvent then startEvent
                  else if notOwnDevice env (readyEvent r) then readyEvent r
                  else if notOwnDevice env (requestEvent r) then requestEvent r
                  else None)
           in case targetEvent of
                None \<Rightarrow> Thrown AddressingError
              | Some e \<Rightarrow>
                  Returned \<lparr>target_userId = getSender e,
                            target_deviceId =
                              (case getContent e of None \<Rightarrow> None | Some c \<Rightarrow> from_device c)\<rparr>))"

text \<open>
  \<^verbatim>\<open>_createVerifier(method, startEvent, targetDevice)\<close>; the method is \<open>None\<close> when the
  caller read it from a content without that field, and then no constructor is found.
\<close>

definition createVerifier ::
    "env \<Rightarrow> request \<Rightarrow> string option \<Rightarrow> event option \<Rightarrow> target option
     \<Rightarrow> verifier option outcome" where
  "createVerifier env r meth startEvent targetDevice =
     (let byMe = (case startEvent of None \<Rightarrow> True | Some e \<Rightarrow> wasSentByOwnDevice env e)
      in case getVerifierTarget env r startEvent targetDevice of
           Thrown e \<Rightarrow> Thrown e
         | Returned tgt \<Rightarrow>
             (case (case meth of None \<Rightarrow> None | Some m \<Rightarrow> map_of (verificationMethods env) m) of
                None \<Rightarrow> Returned None
              | Some c \<Rightarrow>
                  Returned (Some (construct c (target_userId tgt) (target_deviceId tgt)
                                    (if byMe then None else startEvent)))))"

subsection \<open>Applying a transition\<close>

text \<open>
  Modelled from the spec: \<^verbatim>\<open>_handleStart(transition)\<close>, which \<^verbatim>\<open>_transitionToPhase\<close> calls
  and the source files do not define. The spec (4.3) has for it: "then deliver the
  causing message itself to the freshly created verifier".
\<close>

definition handleStart :: "transition \<Rightarrow> request \<Rightarrow> request" where
  "handleStart t r =
     (case verifier r of
        None \<Rightarrow> r
      | Some v \<Rightarrow>
          (case t_event t of
             None \<Rightarrow> r
           | Some e \<Rightarrow> r\<lparr>verifier := Some (v\<lparr>handled := handled v @ [e]\<rparr>)\<rparr>))"

text \<open>Sequencing: a throw skips the rest and keeps the request as it is then.\<close>

definition andThen ::
    "unit outcome \<times> request \<Rightarrow> (request \<Rightarrow> unit outcome \<times> request)
     \<Rightarrow> unit outcome \<times> request" where
  "andThen res f = (case res of (Returned _, r) \<Rightarrow> f r | (Thrown e, r) \<Rightarrow> (Thrown e, r))"

definition has_method :: "env \<Rightarrow> string \<Rightarrow> bool" where
  "has_method env m = (map_of (verificationMethods env) m \<noteq> None)"

text \<open>
  The three blocks of \<^verbatim>\<open>_transitionToPhase(transition)\<close>, in the order of the source:
  "get common methods", "detect if we're not a party in the request", "create
  verifier". A transition without an event throws where the source calls a method of
  the event; so does a content that is absent or has no array of methods.
\<close>

definition getCommonMethods :: "env \<Rightarrow> transition \<Rightarrow> request \<Rightarrow> unit outcome \<times> request" where
  "getCommonMethods env t r =
     (if t_phase t = PHASE_REQUESTED \<or> t_phase t = PHASE_READY
      then case t_event t of
             None \<Rightarrow> (Thrown TypeError, r)
           | Some ev \<Rightarrow>
               if \<not> wasSentByOwnDevice env ev
               then case getContent ev of
                      None \<Rightarrow> (Thrown TypeError, r)
                    | Some c \<Rightarrow>
                        (case methods c of
                           None \<Rightarrow> (Thrown TypeError, r)
                         | Some ms \<Rightarrow>
                             (Returned (), r\<lparr>commonMethods := filter (has_method env) ms\<rparr>))
               else (Returned (), r)
      else (Returned (), r))"

definition detectObserveOnly :: "env \<Rightarrow> transition \<Rightarrow> request \<Rightarrow> unit outcome \<times> request" where
  "detectObserveOnly env t r =
     (if \<not> observeOnly r
      then if t_phase t = PHASE_REQUESTED
           then case t_event t of
                  None \<Rightarrow> (Thrown TypeError, r)
                | Some ev \<Rightarrow>
                    if wasSentByOwnUser env ev \<and> \<not> wasSentByOwnDevice env ev
                    then (Returned (), r\<lparr>observeOnly := True\<rparr>)
                    else (Returned (), r)
           else if t_phase t = PHASE_STARTED \<or> t_phase t = PHASE_READY
           then case t_event t of
                  None \<Rightarrow> (Thrown TypeError, r)
                | Some ev \<Rightarrow> (Returned (), r\<lparr>observeOnly := \<not> wasSentByOwnDevice env ev\<rparr>)
           else (Returned (), r)
      else (Returned (), r))"

definition startVerifier :: "env \<Rightarrow> transition \<Rightarrow> request \<Rightarrow> unit outcome \<times> request" where
  "startVerifier env t r =
     (if t_phase t = PHASE_STARTED
      then case t_event t of
             None \<Rightarrow> (Thrown TypeError, r)
           | Some ev \<Rightarrow>
               (case getContent ev of
                  None \<Rightarrow> (Thrown TypeError, r)
                | Some c \<Rightarrow>
                    if verifier r = None \<and> \<not> observeOnly r
                    then case createVerifier env r (c_method c) (Some ev) None of
                           Thrown e \<Rightarrow> (Thrown e, r)
                         | Returned v \<Rightarrow> (Returned (), handleStart t (r\<lparr>verifier := v\<rparr>))
                    else (Returned (), handleStart t r))
      else (Returned (), r))"

definition transitionToPhase :: "env \<Rightarrow> transition \<Rightarrow> request \<Rightarrow> unit outcome \<times> request" where
  "transitionToPhase env t r =
     andThen (andThen (getCommonMethods env t r) (detectObserveOnly env t)) (startVerifier env t)"

subsection \<open>Handling an inbound event\<close>

text \<open>\<^verbatim>\<open>Array.prototype.findIndex\<close>: the first index whose element satisfies \<open>P\<close>, or \<open>-1\<close>.\<close>

fun findIndex :: "('a \<Rightarrow> bool) \<Rightarrow> 'a list \<Rightarrow> int" where
  "findIndex P [] = - 1"
| "findIndex P (x # xs) =
     (if P x then 0 else (let i = findIndex P xs in if i < 0 then - 1 else i + 1))"

text \<open>\<^verbatim>\<open>Array.prototype.slice(start)\<close>; a negative start counts from the end.\<close>

definition slice :: "int \<Rightarrow> 'a list \<Rightarrow> 'a list" where
  "slice start xs =
     (if start < 0 then drop (length xs - nat (- start)) xs else drop (nat start) xs)"

definition newTransitions :: "env \<Rightarrow> request \<Rightarrow> transition list" where
  "newTransitions env r =
     (let transitions = calculatePhaseTransitions env r;
          existingIdx = findIndex (\<lambda>t. t_phase t = phase r) transitions
      in slice (existingIdx + 1) transitions)"

text \<open>The loop \<^verbatim>\<open>for (const transition of newTransitions)\<close>.\<close>

fun applyTransitions :: "env \<Rightarrow> transition list \<Rightarrow> request \<Rightarrow> unit outcome \<times> request" where
  "applyTransitions env [] r = (Returned (), r)"
| "applyTransitions env (t # ts) r =
     (case transitionToPhase env t r of
        (Returned _, r') \<Rightarrow> applyTransitions env ts r'
      | (Thrown e, r') \<Rightarrow> (Thrown e, r'))"

definition forwardToVerifier :: "env \<Rightarrow> string \<Rightarrow> event \<Rightarrow> request \<Rightarrow> request" where
  "forwardToVerifier env type ev r =
     (case verifier r of
        None \<Rightarrow> r
      | Some v \<Rightarrow>
          if getSender ev = userId env
          then if type = CANCEL_TYPE \<or>
                  (case events v of None \<Rightarrow> False | Some es \<Rightarrow> type \<in> set es)
               then r\<lparr>verifier := Some (v\<lparr>handled := handled v @ [ev]\<rparr>)\<rparr>
               else r
          else r)"

definition storeEvent :: "env \<Rightarrow> string \<Rightarrow> event \<Rightarrow> request \<Rightarrow> request" where
  "storeEvent env type ev r =
     (let sndr = getSender ev;
          isOurs = (sndr = getUserId env);
          isTheirs = (sndr = userId env)
      in if isOurs then r\<lparr>eventsByUs := map_set (eventsByUs r) type ev\<rparr>
         else if isTheirs then r\<lparr>eventsByThem := map_set (eventsByThem r) type ev\<rparr>
         else r)"

definition handleEvent ::
    "env \<Rightarrow> string \<Rightarrow> event \<Rightarrow> bool \<Rightarrow> request \<Rightarrow> unit outcome \<times> request" where
  "handleEvent env type ev isLiveEvent r =
     (let r1 = (if \<not> isLiveEvent then r\<lparr>observeOnly := True\<rparr> else r);
          r2 = storeEvent env type ev r1;
          new = newTransitions env r2
      in case applyTransitions env new r2 of
           (Thrown e, r3) \<Rightarrow> (Thrown e, r3)
         | (Returned _, r3) \<Rightarrow>
             (let r4 = forwardToVerifier env type ev r3
              in (Returned (), if new \<noteq> [] then setPhase (t_phase (last new)) True r4 else r4)))"

subsection \<open>The outbound calls\<close>

text \<open>
  \<^verbatim>\<open>this._hasValidPreStartPhase()\<close>, called by \<^verbatim>\<open>beginKeyVerification\<close> (line 240). The class
  defines no method of that name and neither does \<^verbatim>\<open>EventEmitter\<close>, which it extends, so
  the property is \<^verbatim>\<open>undefined\<close> and calling it throws a \<^verbatim>\<open>TypeError\<close>.
\<close>

definition hasValidPreStartPhase :: "request \<Rightarrow> bool outcome" where
  "hasValidPreStartPhase r = Thrown TypeError"

definition beginKeyVerification ::
    "env \<Rightarrow> string \<Rightarrow> target option \<Rightarrow> request \<Rightarrow> verifier option outcome \<times> request" where
  "beginKeyVerification env meth targetDevice r =
     (if \<not> observeOnly r \<and> verifier r = None
      then case hasValidPreStartPhase r of
             Thrown e \<Rightarrow> (Thrown e, r)
           | Returned valid \<Rightarrow>
               if valid
               then if commonMethods r \<noteq> [] \<and> meth \<notin> set (commonMethods r)
                    then (Thrown UnknownMethodError, r)
                    else case createVerifier env r (Some meth) None targetDevice of
                           Thrown e \<Rightarrow> (Thrown e, r)
                         | Returned v \<Rightarrow>
                             if v = None then (Thrown UnknownMethodError, r\<lparr>verifier := v\<rparr>)
                             else (Returned v, r\<lparr>verifier := v\<rparr>)
               else (Returned (verifier r), r)
      else (Returned (verifier r), r))"

definition sendRequest :: "env \<Rightarrow> request \<Rightarrow> request" where
  "sendRequest env r =
     (if \<not> observeOnly r \<and> phase r = PHASE_UNSENT
      then r\<lparr>initiatedByMe := Some True,
             sent := sent r @ [(REQUEST_TYPE, Methods (map fst (verificationMethods env)))]\<rparr>
      else r)"

text \<open>
  \<^verbatim>\<open>cancel({reason, code})\<close>; an argument left out is \<open>None\<close> and takes the default of the
  source.
\<close>

definition cancel :: "env \<Rightarrow> string option \<Rightarrow> string option \<Rightarrow> request \<Rightarrow> request" where
  "cancel env reason code r =
     (let reason' = (case reason of None \<Rightarrow> ''User declined'' | Some x \<Rightarrow> x);
          code' = (case code of None \<Rightarrow> ''m.user'' | Some x \<Rightarrow> x)
      in if \<not> observeOnly r \<and> phase r \<noteq> PHASE_CANCELLED
         then case verifier r of
                Some v \<Rightarrow> r\<lparr>verifier := Some (v\<lparr>cancelled := cancelled v @ [(code', reason')]\<rparr>)\<rparr>
              | None \<Rightarrow>
                  r\<lparr>cancellingUserId := Some (getUserId env),
                    sent := sent r @ [(CANCEL_TYPE, CancelInfo code' reason')]\<rparr>
         else r)"

definition accept :: "env \<Rightarrow> request \<Rightarrow> request" where
  "accept env r =
     (if \<not> observeOnly r \<and> phase r = PHASE_REQUESTED \<and> \<not> truthy (initiatedByMe r)
      then r\<lparr>sent := sent r @ [(READY_TYPE, Methods (map fst (verificationMethods env)))]\<rparr>
      else r)"

section \<open>Calls, validity and invariants\<close>

text \<open>
  An inbound event is valid when the validator accepts it with no timestamp supplied; an
  event that it accepts with a timestamp is valid in this sense too (lemma
  \<open>validateEvent_valid\<close>).
\<close>

definition valid_event :: "string \<Rightarrow> event \<Rightarrow> bool" where
  "valid_event type ev = (validateEvent type ev None 0 = Returned True)"

text \<open>
  The calls a user of the class can make on a request: the inbound entry point and the
  outbound ones. \<open>perform\<close> is the request after a call, whether the call returned or
  threw; \<open>run\<close> performs a sequence of calls, the first call of the list first.
\<close>

datatype call =
    HandleEvent string event bool
  | BeginKeyVerification string "target option"
  | SendRequest
  | Cancel "string option" "string option"
  | Accept

fun perform :: "env \<Rightarrow> call \<Rightarrow> request \<Rightarrow> request" where
  "perform env (HandleEvent type ev isLiveEvent) r = snd (handleEvent env type ev isLiveEvent r)"
| "perform env (BeginKeyVerification meth targetDevice) r =
     snd (beginKeyVerification env meth targetDevice r)"
| "perform env SendRequest r = sendRequest env r"
| "perform env (Cancel reason code) r = cancel env reason code r"
| "perform env Accept r = accept env r"

fun valid_call :: "call \<Rightarrow> bool" where
  "valid_call (HandleEvent type ev isLiveEvent) = valid_event type ev"
| "valid_call _ = True"

fun run :: "env \<Rightarrow> call list \<Rightarrow> request \<Rightarrow> request" where
  "run env [] r = r"
| "run env (c # cs) r = run env cs (perform env c r)"

text \<open>
  The invariant of the requests that valid calls reach. The two maps have no property
  \<^verbatim>\<open>"m.key.verification.done"\<close>; a recorded request or ready event carries an array of
  methods; the recorded phase is the last phase of the recomputed transition list.
\<close>

definition no_props :: "request \<Rightarrow> bool" where
  "no_props r = (map_prop (eventsByUs r) DONE_TYPE = None \<and> map_prop (eventsByThem r) DONE_TYPE = None)"

definition has_methods :: "event \<Rightarrow> bool" where
  "has_methods e = (case getContent e of None \<Rightarrow> False | Some c \<Rightarrow> methods c \<noteq> None)"

definition slots_ok :: "request \<Rightarrow> bool" where
  "slots_ok r = (\<forall>t \<in> {REQUEST_TYPE, READY_TYPE}. \<forall>m \<in> {eventsByUs r, eventsByThem r}.
      case map_get m t of None \<Rightarrow> True | Some e \<Rightarrow> has_methods e)"

definition settled :: "env \<Rightarrow> request \<Rightarrow> bool" where
  "settled env r = (phase r = top_phase (calculatePhaseTransitions env r))"

definition inv :: "env \<Rightarrow> request \<Rightarrow> bool" where
  "inv env r = (no_props r \<and> slots_ok r \<and> settled env r)"

text \<open>
  \<open>same_but_flags r r'\<close>: \<open>r'\<close> is \<open>r\<close> up to \<open>commonMethods\<close> and \<open>observeOnly\<close>.
  \<open>recorded env r type sndr\<close>: if \<open>sndr\<close> is one of the two parties, the map of that
  party holds an event of that type, sent by \<open>sndr\<close>.
\<close>

definition same_but_flags :: "request \<Rightarrow> request \<Rightarrow> bool" where
  "same_but_flags r r' = (r' = r\<lparr>commonMethods := commonMethods r', observeOnly := observeOnly r'\<rparr>)"

definition recorded :: "env \<Rightarrow> request \<Rightarrow> string \<Rightarrow> string \<Rightarrow> bool" where
  "recorded env r type sndr =
     (if sndr = getUserId env
      then \<exists>e. map_get (eventsByUs r) type = Some e \<and> getSender e = sndr
      else if sndr = userId env
      then \<exists>e. map_get (eventsByThem r) type = Some e \<and> getSender e = sndr
      else True)"

section \<open>Example requests\<close>

text \<open>
  Alice's device \<^verbatim>\<open>ALICEDEVICE\<close> runs the request; Bob is the other party. The channel lets
  a start event open a request, as the to-device channel does, and Alice's registry knows
  the method \<^verbatim>\<open>m.sas.v1\<close> only.
\<close>

definition alice_env :: env where
  "alice_env =
     \<lparr>verificationMethods = [(''m.sas.v1'', VerifierCtor ''sas'' (Some [''m.key.verification.accept'']))],
      getUserId = ''@alice:example.org'', getDeviceId = ''ALICEDEVICE'',
      userId = ''@bob:example.org'',
      canCreateRequest = (\<lambda>type. type = REQUEST_TYPE \<or> type = START_TYPE)\<rparr>"

text \<open>
  The same device on a channel whose other user is Alice herself: she verifies another
  device of her own.
\<close>

definition self_env :: env where
  "self_env = alice_env\<lparr>userId := ''@alice:example.org''\<rparr>"

definition request_by_bob :: event where
  "request_by_bob =
     \<lparr>getSender = ''@bob:example.org'',
      getContent = Some \<lparr>methods = Some [''m.sas.v1'', ''m.qr_code.show.v1''],
                         from_device = Some ''BOBDEVICE'', c_method = None, c_code = None,
                         c_reason = None\<rparr>\<rparr>"

definition request_by_alice :: event where
  "request_by_alice =
     \<lparr>getSender = ''@alice:example.org'',
      getContent = Some \<lparr>methods = Some [''m.sas.v1''], from_device = Some ''ALICEDEVICE'',
                         c_method = None, c_code = None, c_reason = None\<rparr>\<rparr>"

definition request_by_other_device :: event where
  "request_by_other_device =
     \<lparr>getSender = ''@alice:example.org'',
      getContent = Some \<lparr>methods = Some [''m.sas.v1''], from_device = Some ''ALICEPHONE'',
                         c_method = None, c_code = None, c_reason = None\<rparr>\<rparr>"

definition ready_by_alice :: event where
  "ready_by_alice =
     \<lparr>getSender = ''@alice:example.org'',
      getContent = Some \<lparr>methods = Some [''m.sas.v1''], from_device = Some ''ALICEDEVICE'',
                         c_method = None, c_code = None, c_reason = None\<rparr>\<rparr>"

definition ready_by_other_device :: event where
  "ready_by_other_device =
     \<lparr>getSender = ''@alice:example.org'',
      getContent = Some \<lparr>methods = Some [''m.sas.v1''], from_device = Some ''ALICEPHONE'',
                         c_method = None, c_code = None, c_reason = None\<rparr>\<rparr>"

definition start_by_bob :: event where
  "start_by_bob =
     \<lparr>getSender = ''@bob:example.org'',
      getContent = Some \<lparr>methods = None, from_device = Some ''BOBDEVICE'',
                         c_method = Some ''m.sas.v1'', c_code = None, c_reason = None\<rparr>\<rparr>"

definition cancel_by_bob :: event where
  "cancel_by_bob =
     \<lparr>getSender = ''@bob:example.org'',
      getContent = Some \<lparr>methods = None, from_device = None, c_method = None,
                         c_code = Some ''m.user'', c_reason = Some ''User declined''\<rparr>\<rparr>"

definition done_by_alice :: event where
  "done_by_alice =
     \<lparr>getSender = ''@alice:example.org'',
      getContent = Some \<lparr>methods = None, from_device = None, c_method = None,
                         c_code = None, c_reason = None\<rparr>\<rparr>"

definition done_by_bob :: event where
  "done_by_bob =
     \<lparr>getSender = ''@bob:example.org'',
      getContent = Some \<lparr>methods = None, from_device = None, c_method = None,
                         c_code = None, c_reason = None\<rparr>\<rparr>"

text \<open>
  An event type outside the namespace \<^verbatim>\<open>m.key.verification.\<close>.
\<close>

definition unrelated_type :: string where
  "unrelated_type = ''m.room.message''"

text \<open>
  Requests reached by live deliveries: after Bob's start event; after that and the done
  events of both sides; after Bob's request and Alice's ready; after these and Bob's
  cancellation; after the echo of a request sent by Alice's own device. The last one is
  reached by a historical delivery (\<^verbatim>\<open>isLiveEvent\<close> false) of Bob's request.
\<close>

definition after_start :: request where
  "after_start = snd (handleEvent alice_env START_TYPE start_by_bob True new_VerificationRequest)"

definition after_done :: request where
  "after_done =
     run alice_env [HandleEvent START_TYPE start_by_bob True,
                    HandleEvent DONE_TYPE done_by_alice True,
                    HandleEvent DONE_TYPE done_by_bob True] new_VerificationRequest"

definition at_ready :: request where
  "at_ready =
     run alice_env [HandleEvent REQUEST_TYPE request_by_bob True,
                    HandleEvent READY_TYPE ready_by_alice True] new_VerificationRequest"

definition at_cancelled :: request where
  "at_cancelled =
     run alice_env [HandleEvent REQUEST_TYPE request_by_bob True,
                    HandleEvent READY_TYPE ready_by_alice True,
                    HandleEvent CANCEL_TYPE cancel_by_bob True] new_VerificationRequest"

definition after_own_request :: request where
  "after_own_request =
     snd (handleEvent alice_env REQUEST_TYPE request_by_alice True new_VerificationRequest)"

definition historical_request :: request where
  "historical_request =
     snd (handleEvent alice_env REQUEST_TYPE request_by_bob False new_VerificationRequest)"

text \<open>
  On the channel to her own user: after the echo of the request of Alice's device and the
  ready event of her other device \<^verbatim>\<open>ALICEPHONE\<close>, both delivered live.
\<close>

definition after_self_pair :: request where
  "after_self_pair =
     run self_env [HandleEvent REQUEST_TYPE request_by_alice True,
                   HandleEvent READY_TYPE ready_by_other_device True] new_VerificationRequest"

section \<open>Lemmas\<close>

lemma types_distinct [simp]:
  "REQUEST_TYPE \<noteq> READY_TYPE" "REQUEST_TYPE \<noteq> START_TYPE" "REQUEST_TYPE \<noteq> CANCEL_TYPE"
  "REQUEST_TYPE \<noteq> DONE_TYPE" "READY_TYPE \<noteq> REQUEST_TYPE" "READY_TYPE \<noteq> START_TYPE"
  "READY_TYPE \<noteq> CANCEL_TYPE" "READY_TYPE \<noteq> DONE_TYPE" "START_TYPE \<noteq> REQUEST_TYPE"
  "START_TYPE \<noteq> READY_TYPE" "START_TYPE \<noteq> CANCEL_TYPE" "START_TYPE \<noteq> DONE_TYPE"
  "CANCEL_TYPE \<noteq> REQUEST_TYPE" "CANCEL_TYPE \<noteq> READY_TYPE" "CANCEL_TYPE \<noteq> START_TYPE"
  "CANCEL_TYPE \<noteq> DONE_TYPE" "DONE_TYPE \<noteq> REQUEST_TYPE" "DONE_TYPE \<noteq> READY_TYPE"
  "DONE_TYPE \<noteq> START_TYPE" "DONE_TYPE \<noteq> CANCEL_TYPE"
  by (simp_all add: REQUEST_TYPE_def READY_TYPE_def START_TYPE_def CANCEL_TYPE_def DONE_TYPE_def)

lemmas phase_defs = PHASE_UNSENT_def PHASE_REQUESTED_def PHASE_READY_def PHASE_STARTED_def
  PHASE_CANCELLED_def PHASE_DONE_def

lemma calc_phases_cases:
  assumes "no_props r"
  shows "map t_phase (calculatePhaseTransitions env r) \<in>
    {[PHASE_UNSENT, PHASE_CANCELLED], [PHASE_UNSENT], [PHASE_UNSENT, PHASE_REQUESTED],
     [PHASE_UNSENT, PHASE_REQUESTED, PHASE_READY], [PHASE_UNSENT, Str START_TYPE],
     [PHASE_UNSENT, PHASE_REQUESTED, Str START_TYPE],
     [PHASE_UNSENT, PHASE_REQUESTED, PHASE_READY, Str START_TYPE]}"
  using assms
  by (auto simp: no_props_def calculatePhaseTransitions_def Let_def top_phase_def split: option.splits)

lemma calc_nonempty: "calculatePhaseTransitions env r \<noteq> []"
  by (auto simp: calculatePhaseTransitions_def Let_def split: option.splits)

lemma calc_distinct:
  assumes "no_props r"
  shows "distinct (map t_phase (calculatePhaseTransitions env r))"
  using calc_phases_cases [OF assms, of env] by (auto simp: phase_defs)

lemma calc_no_started:
  assumes "no_props r" and "t \<in> set (calculatePhaseTransitions env r)"
  shows "t_phase t \<noteq> PHASE_STARTED \<and> t_phase t \<noteq> PHASE_DONE"
proof -
  have "t_phase t \<in> set (map t_phase (calculatePhaseTransitions env r))"
    using assms(2) by simp
  then show ?thesis
    using calc_phases_cases [OF assms(1), of env] by (auto simp: phase_defs)
qed

lemma calc_cong:
  assumes "eventsByUs r' = eventsByUs r" and "eventsByThem r' = eventsByThem r"
  shows "calculatePhaseTransitions env r' = calculatePhaseTransitions env r"
proof -
  have a: "getEventByEither r' = getEventByEither r"
    by (simp add: fun_eq_iff getEventByEither_def assms cong: option.case_cong)
  have b: "getEventByOther env r' = getEventByOther env r"
    by (simp add: fun_eq_iff getEventByOther_def assms)
  show ?thesis
    unfolding calculatePhaseTransitions_def a b assms by (rule refl)
qed

lemma findIndex_bounds: "- 1 \<le> findIndex P xs \<and> findIndex P xs < int (length xs)"
  by (induction xs) (auto simp: Let_def)

lemma findIndex_nth: "0 \<le> findIndex P xs \<Longrightarrow> P (xs ! nat (findIndex P xs))"
  by (induction xs) (auto simp: Let_def nat_add_distrib split: if_splits)

lemma slice_suffix: "- 1 \<le> i \<Longrightarrow> slice (i + 1) xs = drop (nat (i + 1)) xs"
  by (simp add: slice_def)

lemma new_last:
  assumes "slice (findIndex P xs + 1) xs \<noteq> []"
  shows "last (slice (findIndex P xs + 1) xs) = last xs"
  using assms findIndex_bounds [of P xs] by (simp add: slice_suffix)

lemma new_empty:
  assumes "xs \<noteq> []" and "slice (findIndex P xs + 1) xs = []"
  shows "P (last xs)"
proof -
  have b: "- 1 \<le> findIndex P xs" "findIndex P xs < int (length xs)"
    using findIndex_bounds [of P xs] by simp_all
  from assms(2) b have "length xs \<le> nat (findIndex P xs + 1)"
    by (simp add: slice_suffix)
  with b assms(1) have i: "nat (findIndex P xs) = length xs - 1" "0 \<le> findIndex P xs"
    by (cases xs; simp; linarith)+
  from findIndex_nth [OF i(2)] i(1) assms(1) show ?thesis
    by (simp add: last_conv_nth)
qed

lemma findIndex_last:
  assumes "xs \<noteq> []" and "distinct (map f xs)"
  shows "findIndex (\<lambda>x. f x = f (last xs)) xs = int (length xs) - 1"
  using assms
proof (induction xs)
  case Nil
  then show ?case by simp
next
  case (Cons x xs)
  show ?case
  proof (cases "xs = []")
    case True
    then show ?thesis by simp
  next
    case False
    with Cons have ih: "findIndex (\<lambda>x. f x = f (last xs)) xs = int (length xs) - 1"
      by simp
    from False Cons.prems have "f x \<noteq> f (last xs)"
      by auto
    with False ih show ?thesis by (simp add: Let_def)
  qed
qed

lemma calc_member:
  assumes "t \<in> set (calculatePhaseTransitions env r)"
  shows "(t_phase t = PHASE_REQUESTED \<longrightarrow>
            t_event t \<noteq> None \<and> t_event t = getEventByEither r REQUEST_TYPE) \<and>
         (t_phase t = PHASE_READY \<longrightarrow>
            t_event t \<noteq> None \<and>
            (\<exists>re. getEventByEither r REQUEST_TYPE = Some re \<and>
                  t_event t = getEventByOther env r READY_TYPE (getSender re)))"
  using assms
  by (auto simp: calculatePhaseTransitions_def Let_def top_phase_def phase_defs
      split: option.splits if_splits)

lemma calc_events:
  assumes "slots_ok r" and "t \<in> set (calculatePhaseTransitions env r)"
      and "t_phase t = PHASE_REQUESTED \<or> t_phase t = PHASE_READY"
  shows "\<exists>e. t_event t = Some e \<and> has_methods e"
  using assms(1,3) calc_member [OF assms(2)]
  by (auto simp: slots_ok_def getEventByEither_def getEventByOther_def
      split: option.splits if_splits)

lemma same_but_flags_refl: "same_but_flags r r"
  by (simp add: same_but_flags_def)

lemma same_but_flags_trans:
  "same_but_flags r r' \<Longrightarrow> same_but_flags r' r'' \<Longrightarrow> same_but_flags r r''"
  unfolding same_but_flags_def
  by (metis (no_types, lifting) request.surjective request.update_convs(1,5))

lemma same_but_flags_fields:
  assumes "same_but_flags r r'"
  shows "phase r' = phase r" "eventsByUs r' = eventsByUs r" "eventsByThem r' = eventsByThem r"
    "verifier r' = verifier r" "changes r' = changes r" "sent r' = sent r"
    "cancellingUserId r' = cancellingUserId r" "initiatedByMe r' = initiatedByMe r"
    "requestEvent r' = requestEvent r" "readyEvent r' = readyEvent r"
  using assms unfolding same_but_flags_def
  by (metis request.select_convs request.surjective request.update_convs(1,5))+

lemma transitionToPhase_frame:
  assumes "t_phase t \<noteq> PHASE_STARTED"
      and "t_phase t = PHASE_REQUESTED \<or> t_phase t = PHASE_READY \<Longrightarrow>
           \<exists>e. t_event t = Some e \<and> has_methods e"
  shows "fst (transitionToPhase env t r) = Returned () \<and>
         same_but_flags r (snd (transitionToPhase env t r))"
proof (cases "t_phase t = PHASE_REQUESTED \<or> t_phase t = PHASE_READY")
  case True
  with assms(2) obtain e c ms where e: "t_event t = Some e" "getContent e = Some c" "methods c = Some ms"
    by (auto simp: has_methods_def split: option.splits)
  with True assms(1) show ?thesis
    by (auto simp: transitionToPhase_def andThen_def getCommonMethods_def detectObserveOnly_def
        startVerifier_def same_but_flags_def phase_defs)
next
  case False
  with assms(1) show ?thesis
    by (auto simp: transitionToPhase_def andThen_def getCommonMethods_def detectObserveOnly_def
        startVerifier_def same_but_flags_def)
qed

lemma applyTransitions_frame:
  assumes "\<forall>t \<in> set ts. t_phase t \<noteq> PHASE_STARTED \<and>
             (t_phase t = PHASE_REQUESTED \<or> t_phase t = PHASE_READY \<longrightarrow>
              (\<exists>e. t_event t = Some e \<and> has_methods e))"
  shows "fst (applyTransitions env ts r) = Returned () \<and>
         same_but_flags r (snd (applyTransitions env ts r))"
  using assms
proof (induction ts arbitrary: r)
  case Nil
  then show ?case by (simp add: same_but_flags_refl)
next
  case (Cons t ts)
  have t: "fst (transitionToPhase env t r) = Returned () \<and>
           same_but_flags r (snd (transitionToPhase env t r))"
    using Cons.prems by (intro transitionToPhase_frame) auto
  obtain r' where r': "transitionToPhase env t r = (Returned (), r')"
    using t by (cases "transitionToPhase env t r") auto
  have "fst (applyTransitions env ts r') = Returned () \<and>
        same_but_flags r' (snd (applyTransitions env ts r'))"
    using Cons.prems by (intro Cons.IH) auto
  with t r' show ?case
    by (auto intro: same_but_flags_trans)
qed

lemma storeEvent_fields [simp]:
  "phase (storeEvent env type ev r) = phase r"
  "observeOnly (storeEvent env type ev r) = observeOnly r"
  "verifier (storeEvent env type ev r) = verifier r"
  "changes (storeEvent env type ev r) = changes r"
  "sent (storeEvent env type ev r) = sent r"
  "cancellingUserId (storeEvent env type ev r) = cancellingUserId r"
  "initiatedByMe (storeEvent env type ev r) = initiatedByMe r"
  "commonMethods (storeEvent env type ev r) = commonMethods r"
  by (simp_all add: storeEvent_def Let_def)

lemma storeEvent_observe:
  "storeEvent env type ev (r\<lparr>observeOnly := b\<rparr>) = (storeEvent env type ev r)\<lparr>observeOnly := b\<rparr>"
  by (simp add: storeEvent_def Let_def)

lemma newTransitions_cong:
  assumes "eventsByUs r' = eventsByUs r" and "eventsByThem r' = eventsByThem r"
      and "phase r' = phase r"
  shows "newTransitions env r' = newTransitions env r"
  by (simp add: newTransitions_def calc_cong [OF assms(1,2)] assms(3))

lemma newTransitions_subset:
  "set (newTransitions env r) \<subseteq> set (calculatePhaseTransitions env r)"
  using findIndex_bounds [of "\<lambda>t. t_phase t = phase r" "calculatePhaseTransitions env r"]
  by (simp add: newTransitions_def Let_def slice_suffix set_drop_subset)

lemma newTransitions_last:
  "newTransitions env r \<noteq> [] \<Longrightarrow>
   t_phase (last (newTransitions env r)) = top_phase (calculatePhaseTransitions env r)"
  unfolding newTransitions_def Let_def top_phase_def
  by (simp add: new_last)

lemma newTransitions_empty:
  "newTransitions env r = [] \<Longrightarrow> phase r = top_phase (calculatePhaseTransitions env r)"
  unfolding newTransitions_def Let_def top_phase_def
  using new_empty [OF calc_nonempty, of "\<lambda>t. t_phase t = phase r" env r] by simp

lemma newTransitions_settled:
  assumes "no_props r" and "phase r = top_phase (calculatePhaseTransitions env r)"
  shows "newTransitions env r = []"
proof -
  let ?ts = "calculatePhaseTransitions env r"
  have "findIndex (\<lambda>t. t_phase t = t_phase (last ?ts)) ?ts = int (length ?ts) - 1"
    by (rule findIndex_last [OF calc_nonempty calc_distinct [OF assms(1)]])
  then show ?thesis
    by (simp add: newTransitions_def Let_def assms(2) top_phase_def slice_def)
qed

lemma forwardToVerifier_fields [simp]:
  "phase (forwardToVerifier env type ev r) = phase r"
  "observeOnly (forwardToVerifier env type ev r) = observeOnly r"
  "eventsByUs (forwardToVerifier env type ev r) = eventsByUs r"
  "eventsByThem (forwardToVerifier env type ev r) = eventsByThem r"
  "changes (forwardToVerifier env type ev r) = changes r"
  "sent (forwardToVerifier env type ev r) = sent r"
  "cancellingUserId (forwardToVerifier env type ev r) = cancellingUserId r"
  "initiatedByMe (forwardToVerifier env type ev r) = initiatedByMe r"
  "commonMethods (forwardToVerifier env type ev r) = commonMethods r"
  "(verifier (forwardToVerifier env type ev r) = None) = (verifier r = None)"
  by (simp_all add: forwardToVerifier_def split: option.splits)

lemma handleEvent_live:
  "handleEvent env type ev live r =
   handleEvent env type ev True (if live then r else r\<lparr>observeOnly := True\<rparr>)"
  by (simp add: handleEvent_def)

lemma handleEvent_pass:
  assumes "no_props r" and "slots_ok (storeEvent env type ev r)"
  shows "\<exists>r3. same_but_flags (storeEvent env type ev r) r3 \<and>
           handleEvent env type ev True r =
             (Returned (),
              if newTransitions env (storeEvent env type ev r) \<noteq> []
              then setPhase (top_phase (calculatePhaseTransitions env (storeEvent env type ev r)))
                     True (forwardToVerifier env type ev r3)
              else forwardToVerifier env type ev r3)"
proof -
  let ?r2 = "storeEvent env type ev r"
  have np: "no_props ?r2"
    using assms(1) by (simp add: no_props_def storeEvent_def Let_def map_prop_def map_set_def)
  have good: "\<forall>t \<in> set (newTransitions env ?r2). t_phase t \<noteq> PHASE_STARTED \<and>
             (t_phase t = PHASE_REQUESTED \<or> t_phase t = PHASE_READY \<longrightarrow>
              (\<exists>e. t_event t = Some e \<and> has_methods e))"
    using newTransitions_subset [of env ?r2] calc_no_started [OF np] calc_events [OF assms(2)]
    by blast
  from applyTransitions_frame [OF good, of env ?r2]
  obtain r3 where r3: "applyTransitions env (newTransitions env ?r2) ?r2 = (Returned (), r3)"
      "same_but_flags ?r2 r3"
    by (cases "applyTransitions env (newTransitions env ?r2) ?r2") auto
  show ?thesis
    using r3 by (auto simp: handleEvent_def Let_def newTransitions_last)
qed

lemma validateEvent_valid:
  "validateEvent type ev ts now = Returned True \<Longrightarrow> valid_event type ev"
  by (auto simp: valid_event_def validateEvent_def Let_def split: option.splits if_splits)

lemma valid_event_methods:
  "valid_event type ev \<Longrightarrow> type = REQUEST_TYPE \<or> type = READY_TYPE \<Longrightarrow> has_methods ev"
  by (auto simp: valid_event_def validateEvent_def has_methods_def Let_def
      split: option.splits if_splits)

lemma run_append: "run env (cs @ cs') r = run env cs' (run env cs r)"
  by (induction cs arbitrary: r) auto

lemma inv_new: "inv env new_VerificationRequest"
  by (simp add: inv_def no_props_def slots_ok_def settled_def new_VerificationRequest_def
      new_Map_def map_prop_def map_get_def calculatePhaseTransitions_def getEventByEither_def
      top_phase_def)

lemma storeEvent_slots_ok:
  assumes "slots_ok r" and "valid_event type ev"
  shows "slots_ok (storeEvent env type ev r)"
  using assms(1) valid_event_methods [OF assms(2)]
  by (auto simp: slots_ok_def storeEvent_def Let_def map_get_def map_set_def)

lemma storeEvent_no_props: "no_props (storeEvent env type ev r) = no_props r"
  by (simp add: no_props_def storeEvent_def Let_def map_prop_def map_set_def)

lemma slots_ok_cong:
  "eventsByUs r' = eventsByUs r \<Longrightarrow> eventsByThem r' = eventsByThem r \<Longrightarrow>
   slots_ok r' = slots_ok r"
  by (simp add: slots_ok_def)

lemma no_props_cong:
  "eventsByUs r' = eventsByUs r \<Longrightarrow> eventsByThem r' = eventsByThem r \<Longrightarrow>
   no_props r' = no_props r"
  by (simp add: no_props_def)

lemma inv_cong:
  assumes "eventsByUs r' = eventsByUs r" and "eventsByThem r' = eventsByThem r"
      and "phase r' = phase r"
  shows "inv env r' = inv env r"
  by (simp add: inv_def settled_def slots_ok_cong [OF assms(1,2)] no_props_cong [OF assms(1,2)]
      calc_cong [OF assms(1,2)] assms(3))

text \<open>What one handled event leaves behind, from a request with well-formed slots.\<close>

lemma handleEvent_effect:
  fixes env :: env and type :: string and ev :: event and live :: bool and r :: request
  assumes "no_props r" and "slots_ok r" and "valid_event type ev"
  defines "r2 \<equiv> storeEvent env type ev r"
      and "r' \<equiv> snd (handleEvent env type ev live r)"
  shows "fst (handleEvent env type ev live r) = Returned ()"
    and "eventsByUs r' = eventsByUs r2" and "eventsByThem r' = eventsByThem r2"
    and "phase r' = top_phase (calculatePhaseTransitions env r2)"
    and "newTransitions env r2 = [] \<Longrightarrow> phase r' = phase r \<and> changes r' = changes r"
    and "newTransitions env r2 \<noteq> [] \<Longrightarrow> changes r' = changes r + 1"
    and "sent r' = sent r" and "cancellingUserId r' = cancellingUserId r"
    and "initiatedByMe r' = initiatedByMe r" and "(verifier r' = None) = (verifier r = None)"
proof -
  let ?r1 = "if live then r else r\<lparr>observeOnly := True\<rparr>"
  let ?s = "storeEvent env type ev ?r1"
  have s: "eventsByUs ?s = eventsByUs r2" "eventsByThem ?s = eventsByThem r2" "phase ?s = phase r"
      "changes ?s = changes r" "sent ?s = sent r" "cancellingUserId ?s = cancellingUserId r"
      "initiatedByMe ?s = initiatedByMe r" "verifier ?s = verifier r"
    by (simp_all add: r2_def storeEvent_observe)
  have np: "no_props ?r1" using assms(1) by (simp add: no_props_def)
  have so: "slots_ok ?s"
    using storeEvent_slots_ok [OF assms(2,3), of env] slots_ok_cong [OF s(1,2)]
    by (simp add: r2_def)
  have nt: "newTransitions env ?s = newTransitions env r2"
    by (rule newTransitions_cong) (simp_all add: s r2_def)
  have ct: "calculatePhaseTransitions env ?s = calculatePhaseTransitions env r2"
    by (rule calc_cong [OF s(1,2)])
  from handleEvent_pass [OF np so]
  obtain r3 where r3: "same_but_flags ?s r3"
    and h: "handleEvent env type ev True ?r1 =
             (Returned (),
              if newTransitions env ?s \<noteq> []
              then setPhase (top_phase (calculatePhaseTransitions env ?s))
                     True (forwardToVerifier env type ev r3)
              else forwardToVerifier env type ev r3)"
    by blast
  have h': "handleEvent env type ev live r =
             (Returned (),
              if newTransitions env r2 \<noteq> []
              then setPhase (top_phase (calculatePhaseTransitions env r2))
                     True (forwardToVerifier env type ev r3)
              else forwardToVerifier env type ev r3)"
    using h by (simp add: handleEvent_live [of env type ev live r] nt ct)
  note f = same_but_flags_fields [OF r3]
  show "fst (handleEvent env type ev live r) = Returned ()"
    by (simp add: h')
  show "eventsByUs r' = eventsByUs r2" "eventsByThem r' = eventsByThem r2"
    by (simp_all add: r'_def h' setPhase_def f s)
  show "sent r' = sent r" "cancellingUserId r' = cancellingUserId r"
    "initiatedByMe r' = initiatedByMe r" "(verifier r' = None) = (verifier r = None)"
    by (simp_all add: r'_def h' setPhase_def f s)
  show "phase r' = top_phase (calculatePhaseTransitions env r2)"
    using newTransitions_empty [of env r2]
    by (simp add: r'_def h' setPhase_def f s r2_def)
  show "newTransitions env r2 = [] \<Longrightarrow> phase r' = phase r \<and> changes r' = changes r"
    by (simp add: r'_def h' f s)
  show "newTransitions env r2 \<noteq> [] \<Longrightarrow> changes r' = changes r + 1"
    by (simp add: r'_def h' setPhase_def f s)
qed

lemma outbound_fields:
  "phase (snd (beginKeyVerification env m tg r)) = phase r"
  "eventsByUs (snd (beginKeyVerification env m tg r)) = eventsByUs r"
  "eventsByThem (snd (beginKeyVerification env m tg r)) = eventsByThem r"
  "phase (sendRequest env r) = phase r"
  "eventsByUs (sendRequest env r) = eventsByUs r"
  "eventsByThem (sendRequest env r) = eventsByThem r"
  "phase (cancel env reason code r) = phase r"
  "eventsByUs (cancel env reason code r) = eventsByUs r"
  "eventsByThem (cancel env reason code r) = eventsByThem r"
  "phase (accept env r) = phase r"
  "eventsByUs (accept env r) = eventsByUs r"
  "eventsByThem (accept env r) = eventsByThem r"
  by (simp_all add: beginKeyVerification_def hasValidPreStartPhase_def sendRequest_def
      cancel_def accept_def Let_def split: option.splits outcome.splits)

lemma inv_perform:
  assumes "inv env r" and "valid_call c"
  shows "inv env (perform env c r)"
proof (cases c)
  case (HandleEvent type ev live)
  from assms have a: "no_props r" "slots_ok r" "valid_event type ev"
    by (simp_all add: inv_def HandleEvent)
  let ?r2 = "storeEvent env type ev r"
  let ?r' = "snd (handleEvent env type ev live r)"
  note e = handleEvent_effect [OF a, of env live]
  have "no_props ?r'"
    using no_props_cong [OF e(2,3)] a(1) by (simp add: storeEvent_no_props)
  moreover have "slots_ok ?r'"
    using slots_ok_cong [OF e(2,3)] storeEvent_slots_ok [OF a(2,3), of env] by simp
  moreover have "settled env ?r'"
    by (simp add: settled_def e(4) calc_cong [OF e(2,3)])
  ultimately show ?thesis
    by (simp add: inv_def HandleEvent)
next
  case (BeginKeyVerification m tg)
  then show ?thesis
    using assms(1) inv_cong [of "snd (beginKeyVerification env m tg r)" r env]
    by (simp add: outbound_fields)
next
  case SendRequest
  then show ?thesis
    using assms(1) inv_cong [of "sendRequest env r" r env] by (simp add: outbound_fields)
next
  case (Cancel reason code)
  then show ?thesis
    using assms(1) inv_cong [of "cancel env reason code r" r env] by (simp add: outbound_fields)
next
  case Accept
  then show ?thesis
    using assms(1) inv_cong [of "accept env r" r env] by (simp add: outbound_fields)
qed

lemma inv_run:
  "inv env r \<Longrightarrow> list_all valid_call cs \<Longrightarrow> inv env (run env cs r)"
  by (induction cs arbitrary: r) (auto simp: inv_perform)

lemma calc_phases_rel:
  assumes E: "\<And>t. rel_option (\<lambda>a b. getSender a = getSender b)
                 (getEventByEither r' t) (getEventByEither r t)"
      and O: "\<And>t s. rel_option (\<lambda>a b. getSender a = getSender b)
                 (getEventByOther env r' t s) (getEventByOther env r t s)"
      and np: "no_props r" "no_props r'"
  shows "map t_phase (calculatePhaseTransitions env r') =
         map t_phase (calculatePhaseTransitions env r)"
proof (cases "getEventByEither r CANCEL_TYPE")
  case (Some c)
  with E [of CANCEL_TYPE] obtain c' where "getEventByEither r' CANCEL_TYPE = Some c'"
    by (cases "getEventByEither r' CANCEL_TYPE") auto
  with Some show ?thesis
    by (simp add: calculatePhaseTransitions_def)
next
  case None
  with E [of CANCEL_TYPE] have c': "getEventByEither r' CANCEL_TYPE = None"
    by (cases "getEventByEither r' CANCEL_TYPE") auto
  show ?thesis
  proof (cases "getEventByEither r REQUEST_TYPE")
    case rNone: None
    with E [of REQUEST_TYPE] have r': "getEventByEither r' REQUEST_TYPE = None"
      by (cases "getEventByEither r' REQUEST_TYPE") auto
    show ?thesis
      using E [of START_TYPE] np
      by (cases "getEventByEither r START_TYPE"; cases "getEventByEither r' START_TYPE")
         (auto simp: Let_def calculatePhaseTransitions_def None c' rNone r' top_phase_def no_props_def)
  next
    case (Some q)
    with E [of REQUEST_TYPE] obtain q' where q': "getEventByEither r' REQUEST_TYPE = Some q'"
        "getSender q' = getSender q"
      by (cases "getEventByEither r' REQUEST_TYPE") auto
    show ?thesis
      using E [of START_TYPE] O [of READY_TYPE "getSender q"] np
      by (cases "getEventByEither r START_TYPE"; cases "getEventByEither r' START_TYPE";
          cases "getEventByOther env r READY_TYPE (getSender q)";
          cases "getEventByOther env r' READY_TYPE (getSender q)")
         (auto simp: Let_def calculatePhaseTransitions_def None c' Some q' top_phase_def no_props_def
            phase_defs)
  qed
qed

lemma top_cancelled:
  "(top_phase (calculatePhaseTransitions env r) = PHASE_CANCELLED) =
   (getEventByEither r CANCEL_TYPE \<noteq> None)"
  by (auto simp: calculatePhaseTransitions_def Let_def top_phase_def phase_defs
      split: option.splits)

lemma top_not_done:
  assumes "no_props r"
  shows "top_phase (calculatePhaseTransitions env r) \<noteq> PHASE_DONE"
  using calc_no_started [OF assms, of "last (calculatePhaseTransitions env r)" env]
    calc_nonempty [of env r]
  by (simp add: top_phase_def)

lemma getEventByEither_cong:
  "eventsByUs r' = eventsByUs r \<Longrightarrow> eventsByThem r' = eventsByThem r \<Longrightarrow>
   getEventByEither r' t = getEventByEither r t"
  by (simp add: getEventByEither_def cong: option.case_cong)

lemma storeEvent_keeps:
  "getEventByEither r t \<noteq> None \<Longrightarrow> getEventByEither (storeEvent env type ev r) t \<noteq> None"
  by (auto simp: getEventByEither_def storeEvent_def Let_def map_get_def map_set_def
      split: option.splits if_splits)

lemma perform_outbound:
  assumes "\<And>type ev live. c \<noteq> HandleEvent type ev live"
  shows "eventsByUs (perform env c r) = eventsByUs r"
    and "eventsByThem (perform env c r) = eventsByThem r"
    and "phase (perform env c r) = phase r"
  using assms by (cases c; simp add: outbound_fields)+

lemma getEventByEither_outbound:
  assumes "\<And>type ev live. c \<noteq> HandleEvent type ev live"
  shows "getEventByEither (perform env c r) t = getEventByEither r t"
  by (rule getEventByEither_cong; rule perform_outbound; rule assms)

lemma cancel_kept:
  assumes "inv env r" and "valid_call c" and "getEventByEither r CANCEL_TYPE \<noteq> None"
  shows "getEventByEither (perform env c r) CANCEL_TYPE \<noteq> None"
proof (cases c)
  case (HandleEvent type ev live)
  from assms have a: "no_props r" "slots_ok r" "valid_event type ev"
    by (simp_all add: inv_def HandleEvent)
  note e = handleEvent_effect [OF a, of env live]
  show ?thesis
    using storeEvent_keeps [OF assms(3), of env type ev]
      getEventByEither_cong [OF e(2,3), of CANCEL_TYPE]
    by (simp add: HandleEvent)
next
  case (BeginKeyVerification m tg)
  then show ?thesis
    using assms(3) getEventByEither_outbound [of c env r CANCEL_TYPE]
    by simp
next
  case SendRequest
  then show ?thesis
    using assms(3) getEventByEither_outbound [of c env r CANCEL_TYPE]
    by simp
next
  case (Cancel reason code)
  then show ?thesis
    using assms(3) getEventByEither_outbound [of c env r CANCEL_TYPE]
    by simp
next
  case Accept
  then show ?thesis
    using assms(3) getEventByEither_outbound [of c env r CANCEL_TYPE]
    by simp
qed

lemma cancelled_run:
  "inv env r \<Longrightarrow> list_all valid_call cs \<Longrightarrow> getEventByEither r CANCEL_TYPE \<noteq> None \<Longrightarrow>
   getEventByEither (run env cs r) CANCEL_TYPE \<noteq> None"
proof (induction cs arbitrary: r)
  case Nil
  then show ?case by simp
next
  case (Cons c cs)
  from Cons.prems have v: "valid_call c" "list_all valid_call cs"
    by simp_all
  have "getEventByEither (run env cs (perform env c r)) CANCEL_TYPE \<noteq> None"
    by (rule Cons.IH [OF inv_perform [OF Cons.prems(1) v(1)] v(2)
          cancel_kept [OF Cons.prems(1) v(1) Cons.prems(3)]])
  then show ?case by simp
qed

lemma recorded_cong:
  "eventsByUs r' = eventsByUs r \<Longrightarrow> eventsByThem r' = eventsByThem r \<Longrightarrow>
   recorded env r' t s = recorded env r t s"
  by (simp add: recorded_def)

lemma recorded_outbound:
  assumes "\<And>type ev live. c \<noteq> HandleEvent type ev live"
  shows "recorded env (perform env c r) t s = recorded env r t s"
  by (rule recorded_cong; rule perform_outbound; rule assms)

lemma recorded_store: "recorded env (storeEvent env type ev r) type (getSender ev)"
  by (simp add: recorded_def storeEvent_def Let_def map_get_def map_set_def)

lemma recorded_store_keep:
  "recorded env r t s \<Longrightarrow> recorded env (storeEvent env type ev r) t s"
  by (auto simp: recorded_def storeEvent_def Let_def map_get_def map_set_def split: if_splits)

lemma recorded_perform:
  assumes "inv env r" and "valid_call c"
  shows "recorded env r t s \<Longrightarrow> recorded env (perform env c r) t s"
    and "c = HandleEvent type ev live \<Longrightarrow> recorded env (perform env c r) type (getSender ev)"
proof -
  show "recorded env r t s \<Longrightarrow> recorded env (perform env c r) t s"
  proof (cases c)
    case (HandleEvent type' ev' live')
    from assms have a: "no_props r" "slots_ok r" "valid_event type' ev'"
      by (simp_all add: inv_def HandleEvent)
    note e = handleEvent_effect [OF a, of env live']
    assume "recorded env r t s"
    then show ?thesis
      using recorded_cong [OF e(2,3), of env t s]
      by (simp add: HandleEvent recorded_store_keep)
  next
    case (BeginKeyVerification m tg)
    assume "recorded env r t s"
    then show ?thesis
      using recorded_outbound [of c env r t s] BeginKeyVerification
      by simp
  next
    case SendRequest
    assume "recorded env r t s"
    then show ?thesis
      using recorded_outbound [of c env r t s] SendRequest
      by simp
  next
    case (Cancel reason code)
    assume "recorded env r t s"
    then show ?thesis
      using recorded_outbound [of c env r t s] Cancel
      by simp
  next
    case Accept
    assume "recorded env r t s"
    then show ?thesis
      using recorded_outbound [of c env r t s] Accept
      by simp
  qed
  show "c = HandleEvent type ev live \<Longrightarrow> recorded env (perform env c r) type (getSender ev)"
  proof -
    assume c: "c = HandleEvent type ev live"
    from assms have a: "no_props r" "slots_ok r" "valid_event type ev"
      by (simp_all add: inv_def c)
    note e = handleEvent_effect [OF a, of env live]
    show ?thesis
      using recorded_cong [OF e(2,3), of env type "getSender ev"]
      by (simp add: c recorded_store)
  qed
qed

lemma recorded_run:
  "inv env r \<Longrightarrow> list_all valid_call cs \<Longrightarrow> recorded env r t s \<Longrightarrow>
   recorded env (run env cs r) t s"
proof (induction cs arbitrary: r)
  case Nil
  then show ?case by simp
next
  case (Cons c cs)
  from Cons.prems have v: "valid_call c" "list_all valid_call cs"
    by simp_all
  have "recorded env (run env cs (perform env c r)) t s"
    by (rule Cons.IH [OF inv_perform [OF Cons.prems(1) v(1)] v(2)
          recorded_perform(1) [OF Cons.prems(1) v(1) Cons.prems(3)]])
  then show ?case by simp
qed

lemma recorded_after:
  "inv env r \<Longrightarrow> list_all valid_call cs \<Longrightarrow> HandleEvent type ev live \<in> set cs \<Longrightarrow>
   recorded env (run env cs r) type (getSender ev)"
proof (induction cs arbitrary: r)
  case Nil
  then show ?case by simp
next
  case (Cons c cs)
  from Cons.prems have i: "inv env (perform env c r)" and v: "list_all valid_call cs"
    by (simp_all add: inv_perform)
  show ?case
  proof (cases "c = HandleEvent type ev live")
    case True
    with Cons.prems have "recorded env (perform env c r) type (getSender ev)"
      by (intro recorded_perform(2)) simp_all
    then show ?thesis
      using recorded_run [OF i v] by simp
  next
    case False
    with Cons.prems have "HandleEvent type ev live \<in> set cs" by simp
    then show ?thesis
      using Cons.IH [OF i v] by simp
  qed
qed

lemma store_recorded_phases:
  assumes "no_props r" and "recorded env r type (getSender ev)"
  shows "map t_phase (calculatePhaseTransitions env (storeEvent env type ev r)) =
         map t_phase (calculatePhaseTransitions env r)"
proof (rule calc_phases_rel)
  show "no_props r" by fact
  show "no_props (storeEvent env type ev r)"
    using assms(1) by (simp add: storeEvent_no_props)
next
  fix t
  show "rel_option (\<lambda>a b. getSender a = getSender b)
          (getEventByEither (storeEvent env type ev r) t) (getEventByEither r t)"
    using assms(2)
    by (auto simp: recorded_def getEventByEither_def storeEvent_def Let_def map_get_def
        map_set_def option.rel_refl split: option.splits if_splits)
next
  fix t s
  show "rel_option (\<lambda>a b. getSender a = getSender b)
          (getEventByOther env (storeEvent env type ev r) t s) (getEventByOther env r t s)"
    using assms(2)
    by (auto simp: recorded_def getEventByOther_def storeEvent_def Let_def map_get_def
        map_set_def option.rel_refl split: option.splits if_splits)
qed

lemma beginKeyVerification_TypeError:
  "\<not> observeOnly r \<Longrightarrow> verifier r = None \<Longrightarrow>
   beginKeyVerification env meth targetDevice r = (Thrown TypeError, r)"
  by (simp add: beginKeyVerification_def hasValidPreStartPhase_def)

lemma handleStart_observeOnly [simp]: "observeOnly (handleStart t r) = observeOnly r"
  by (simp add: handleStart_def split: option.splits)

lemma transitionToPhase_observeOnly:
  "observeOnly r \<Longrightarrow> observeOnly (snd (transitionToPhase env t r))"
  by (auto simp: transitionToPhase_def andThen_def getCommonMethods_def detectObserveOnly_def
      startVerifier_def split: option.splits outcome.splits)

lemma applyTransitions_observeOnly:
  "observeOnly r \<Longrightarrow> observeOnly (snd (applyTransitions env ts r))"
proof (induction ts arbitrary: r)
  case Nil
  then show ?case by simp
next
  case (Cons t ts)
  show ?case
  proof (cases "transitionToPhase env t r")
    case (Pair out r')
    with transitionToPhase_observeOnly [OF Cons.prems, of env t] have "observeOnly r'"
      by simp
    with Pair Cons.IH [of r'] show ?thesis
      by (cases out) simp_all
  qed
qed

lemma handleEvent_observeOnly:
  assumes "observeOnly r \<or> \<not> live"
  shows "observeOnly (snd (handleEvent env type ev live r))"
proof -
  let ?r2 = "storeEvent env type ev (if \<not> live then r\<lparr>observeOnly := True\<rparr> else r)"
  have "observeOnly ?r2" using assms by auto
  from applyTransitions_observeOnly [OF this, of env "newTransitions env ?r2"]
  show ?thesis
    by (cases "applyTransitions env (newTransitions env ?r2) ?r2")
       (auto simp: handleEvent_def Let_def setPhase_def split: outcome.splits)
qed

lemma first_request:
  assumes "valid_event REQUEST_TYPE ev"
      and "getSender ev = getUserId env \<or> getSender ev = userId env"
  obtains c ms where "getContent ev = Some c" and "methods c = Some ms"
    and "handleEvent env REQUEST_TYPE ev live new_VerificationRequest =
         (Returned (),
          setPhase PHASE_REQUESTED True
            ((storeEvent env REQUEST_TYPE ev new_VerificationRequest)
               \<lparr>commonMethods :=
                  (if wasSentByOwnDevice env ev then [] else filter (has_method env) ms),
                observeOnly :=
                  (\<not> live \<or> (wasSentByOwnUser env ev \<and> \<not> wasSentByOwnDevice env ev))\<rparr>))"
proof -
  from valid_event_methods [OF assms(1)] obtain c ms
    where c: "getContent ev = Some c" "methods c = Some ms"
    by (auto simp: has_methods_def split: option.splits)
  have calc: "calculatePhaseTransitions env
                (storeEvent env REQUEST_TYPE ev
                   (if \<not> live then new_VerificationRequest\<lparr>observeOnly := True\<rparr>
                    else new_VerificationRequest)) =
              [Transition PHASE_UNSENT None, Transition PHASE_REQUESTED (Some ev)]"
    using assms(2)
    by (auto simp: calculatePhaseTransitions_def storeEvent_def Let_def new_VerificationRequest_def
        new_Map_def map_get_def map_set_def map_prop_def getEventByEither_def getEventByOther_def
        top_phase_def phase_defs)
  have new: "newTransitions env
                (storeEvent env REQUEST_TYPE ev
                   (if \<not> live then new_VerificationRequest\<lparr>observeOnly := True\<rparr>
                    else new_VerificationRequest)) =
              [Transition PHASE_REQUESTED (Some ev)]"
    unfolding newTransitions_def calc
    by (simp add: Let_def slice_def new_VerificationRequest_def phase_defs)
  have "handleEvent env REQUEST_TYPE ev live new_VerificationRequest =
         (Returned (),
          setPhase PHASE_REQUESTED True
            ((storeEvent env REQUEST_TYPE ev new_VerificationRequest)
               \<lparr>commonMethods :=
                  (if wasSentByOwnDevice env ev then [] else filter (has_method env) ms),
                observeOnly :=
                  (\<not> live \<or> (wasSentByOwnUser env ev \<and> \<not> wasSentByOwnDevice env ev))\<rparr>))"
    unfolding handleEvent_def Let_def new
    by (auto simp: transitionToPhase_def andThen_def getCommonMethods_def detectObserveOnly_def
        startVerifier_def forwardToVerifier_def setPhase_def c storeEvent_def Let_def
        new_VerificationRequest_def phase_defs)
  with c show ?thesis by (rule that)
qed

lemma has_method_keys: "has_method env m = (m \<in> set (map fst (verificationMethods env)))"
  by (simp add: has_method_def map_of_eq_None_iff)

lemma not_own_device: "getSender ev \<noteq> getUserId env \<Longrightarrow> \<not> wasSentByOwnDevice env ev"
  by (simp add: wasSentByOwnDevice_def wasSentByOwnUser_def)

lemmas handle_defs = handleEvent_def newTransitions_def calculatePhaseTransitions_def
  storeEvent_def new_VerificationRequest_def new_Map_def map_get_def map_set_def map_prop_def
  getEventByEither_def getEventByOther_def top_phase_def slice_def transitionToPhase_def
  andThen_def getCommonMethods_def detectObserveOnly_def startVerifier_def
  forwardToVerifier_def setPhase_def wasSentByOwnUser_def

lemma pair_in_order_us:
  assumes "getContent req = Some cq" "methods cq = Some mq"
      and "getContent rdy = Some cr" "methods cr = Some mr"
      and "getUserId env \<noteq> userId env"
      and "getSender req = getUserId env" "getSender rdy = userId env"
  shows "phase (run env [HandleEvent REQUEST_TYPE req l1, HandleEvent READY_TYPE rdy l2]
                  new_VerificationRequest) = PHASE_READY \<and>
         commonMethods (run env [HandleEvent REQUEST_TYPE req l1, HandleEvent READY_TYPE rdy l2]
                  new_VerificationRequest) = filter (has_method env) mr"
proof -
  have n: "\<not> wasSentByOwnDevice env rdy"
    using assms(5,7) by (intro not_own_device) simp
  show ?thesis
    using assms n
    by (cases l1; cases l2; cases "wasSentByOwnDevice env req")
       (simp_all add: handle_defs Let_def phase_defs)
qed

lemma pair_in_order_them:
  assumes "getContent req = Some cq" "methods cq = Some mq"
      and "getContent rdy = Some cr" "methods cr = Some mr"
      and "getUserId env \<noteq> userId env"
      and "getSender req = userId env" "getSender rdy = getUserId env"
  shows "phase (run env [HandleEvent REQUEST_TYPE req l1, HandleEvent READY_TYPE rdy l2]
                  new_VerificationRequest) = PHASE_READY \<and>
         commonMethods (run env [HandleEvent REQUEST_TYPE req l1, HandleEvent READY_TYPE rdy l2]
                  new_VerificationRequest) =
           filter (has_method env) (if wasSentByOwnDevice env rdy then mq else mr)"
proof -
  have n: "\<not> wasSentByOwnDevice env req"
    using assms(5,6) by (intro not_own_device) simp
  show ?thesis
    using assms n
    by (cases l1; cases l2; cases "wasSentByOwnDevice env rdy")
       (simp_all add: handle_defs Let_def phase_defs)
qed

lemma pair_out_of_order_us:
  assumes "getContent req = Some cq" "methods cq = Some mq"
      and "getContent rdy = Some cr" "methods cr = Some mr"
      and "getUserId env \<noteq> userId env"
      and "getSender req = getUserId env" "getSender rdy = userId env"
  shows "phase (run env [HandleEvent READY_TYPE rdy l2, HandleEvent REQUEST_TYPE req l1]
                  new_VerificationRequest) = PHASE_READY \<and>
         commonMethods (run env [HandleEvent READY_TYPE rdy l2, HandleEvent REQUEST_TYPE req l1]
                  new_VerificationRequest) = filter (has_method env) mr"
proof -
  have n: "\<not> wasSentByOwnDevice env rdy"
    using assms(5,7) by (intro not_own_device) simp
  show ?thesis
    using assms n
    by (cases l1; cases l2; cases "wasSentByOwnDevice env req")
       (simp_all add: handle_defs Let_def phase_defs)
qed

lemma pair_out_of_order_them:
  assumes "getContent req = Some cq" "methods cq = Some mq"
      and "getContent rdy = Some cr" "methods cr = Some mr"
      and "getUserId env \<noteq> userId env"
      and "getSender req = userId env" "getSender rdy = getUserId env"
  shows "phase (run env [HandleEvent READY_TYPE rdy l2, HandleEvent REQUEST_TYPE req l1]
                  new_VerificationRequest) = PHASE_READY \<and>
         commonMethods (run env [HandleEvent READY_TYPE rdy l2, HandleEvent REQUEST_TYPE req l1]
                  new_VerificationRequest) =
           filter (has_method env) (if wasSentByOwnDevice env rdy then mq else mr)"
proof -
  have n: "\<not> wasSentByOwnDevice env req"
    using assms(5,6) by (intro not_own_device) simp
  show ?thesis
    using assms n
    by (cases l1; cases l2; cases "wasSentByOwnDevice env rdy")
       (simp_all add: handle_defs Let_def phase_defs)
qed

section \<open>Properties\<close>

text \<open>
  C1. An inbound start event that makes the request eligible for the started phase should
  create one verifier for the event's method and leave the recorded phase at
  \<^verbatim>\<open>PHASE_STARTED\<close>. The code does not: \<^verbatim>\<open>_calculatePhaseTransitions\<close> pushes the transition
  with the string \<^verbatim>\<open>START_TYPE\<close> as its phase, so the branch \<^verbatim>\<open>phase === PHASE_STARTED\<close> of
  \<^verbatim>\<open>_transitionToPhase\<close> is never taken. On a fresh request of Alice's, on a channel where a
  start event may open a request, Bob's live start event for \<^verbatim>\<open>m.sas.v1\<close> is handled
  without an exception; the request is not observe-only and has no verifier before or
  after, and its recorded phase is the string \<^verbatim>\<open>"m.key.verification.start"\<close>, not
  \<^verbatim>\<open>PHASE_STARTED\<close>.
\<close>

theorem start_never_started:
  "fst (handleEvent alice_env START_TYPE start_by_bob True new_VerificationRequest) = Returned () \<and>
   map t_phase (calculatePhaseTransitions alice_env after_start) = [PHASE_UNSENT, Str START_TYPE] \<and>
   phase after_start = Str START_TYPE \<and> phase after_start \<noteq> PHASE_STARTED \<and>
   \<not> started after_start \<and> \<not> observeOnly after_start \<and> verifier after_start = None"
  by code_simp

text \<open>
  C2. With a done event of each side recorded and the start transition on top of the
  list, the recomputed list should end with the done phase. The code reads the two done
  events as properties of the maps (\<^verbatim>\<open>this._eventsByUs[DONE_TYPE]\<close>), which \<^verbatim>\<open>set\<close> never
  writes: after Bob's start event and the done events of Alice and of Bob, both done
  events are in the maps, and the list still ends with the start transition; the phase
  is not \<^verbatim>\<open>PHASE_DONE\<close>.
\<close>

theorem done_never_reached:
  "map_get (eventsByUs after_done) DONE_TYPE = Some done_by_alice \<and>
   map_get (eventsByThem after_done) DONE_TYPE = Some done_by_bob \<and>
   map t_phase (calculatePhaseTransitions alice_env after_done) = [PHASE_UNSENT, Str START_TYPE] \<and>
   phase after_done = Str START_TYPE \<and> \<not> done_phase after_done"
  by code_simp

text \<open>
  C3. When the phase becomes cancelled, \<open>cancellingUserId\<close> should be the user who
  authored the cancellation. \<^verbatim>\<open>_transitionToPhase\<close> does not assign it, only the outbound
  \<^verbatim>\<open>cancel()\<close> does: after Bob's request and Alice's ready the phase is ready, and handling
  Bob's cancellation (code \<^verbatim>\<open>m.user\<close>) makes the phase cancelled and leaves
  \<open>cancellingUserId\<close> undefined, though the cancellation has Bob as its sender.
\<close>

theorem inbound_cancel_no_cancellingUserId:
  "phase at_ready = PHASE_READY \<and>
   phase (snd (handleEvent alice_env CANCEL_TYPE cancel_by_bob True at_ready)) = PHASE_CANCELLED \<and>
   cancellingUserId (snd (handleEvent alice_env CANCEL_TYPE cancel_by_bob True at_ready)) = None \<and>
   getSender cancel_by_bob = ''@bob:example.org''"
  by code_simp

text \<open>
  C4. The cancelled and the done phase are terminal. Take any sequence of calls on a new
  request in which every inbound event is valid (outbound calls may be interleaved). If
  the phase is \<^verbatim>\<open>PHASE_CANCELLED\<close> or \<^verbatim>\<open>PHASE_DONE\<close> after a first part \<open>cs\<close> of the
  sequence, it is the same after the whole sequence \<open>cs @ cs'\<close>.
\<close>

theorem terminal_phases:
  assumes "list_all valid_call (cs @ cs')"
      and "phase (run env cs new_VerificationRequest) = PHASE_CANCELLED \<or>
           phase (run env cs new_VerificationRequest) = PHASE_DONE"
  shows "phase (run env (cs @ cs') new_VerificationRequest) =
         phase (run env cs new_VerificationRequest)"
proof -
  let ?r = "run env cs new_VerificationRequest"
  let ?r' = "run env cs' ?r"
  from assms(1) have v: "list_all valid_call cs" "list_all valid_call cs'"
    by simp_all
  have i: "inv env ?r"
    by (rule inv_run [OF inv_new v(1)])
  have i': "inv env ?r'"
    by (rule inv_run [OF i v(2)])
  from i have "phase ?r \<noteq> PHASE_DONE"
    using top_not_done [of ?r env] by (simp add: inv_def settled_def)
  with assms(2) have c: "phase ?r = PHASE_CANCELLED"
    by simp
  with i have "getEventByEither ?r CANCEL_TYPE \<noteq> None"
    using top_cancelled [of env ?r] by (simp add: inv_def settled_def)
  then have "getEventByEither ?r' CANCEL_TYPE \<noteq> None"
    by (rule cancelled_run [OF i v(2)])
  with i' have "phase ?r' = PHASE_CANCELLED"
    using top_cancelled [of env ?r'] by (simp add: inv_def settled_def)
  with c show ?thesis
    by (simp add: run_append)
qed

theorem terminal_phases_witness:
  "list_all valid_call
     ([HandleEvent REQUEST_TYPE request_by_bob True, HandleEvent READY_TYPE ready_by_alice True,
       HandleEvent CANCEL_TYPE cancel_by_bob True] @
      [HandleEvent START_TYPE start_by_bob True, HandleEvent DONE_TYPE done_by_bob True]) \<and>
   phase at_cancelled = PHASE_CANCELLED \<and>
   phase (run alice_env
            ([HandleEvent REQUEST_TYPE request_by_bob True,
              HandleEvent READY_TYPE ready_by_alice True,
              HandleEvent CANCEL_TYPE cancel_by_bob True] @
             [HandleEvent START_TYPE start_by_bob True, HandleEvent DONE_TYPE done_by_bob True])
            new_VerificationRequest) = PHASE_CANCELLED"
proof -
  have v: "list_all valid_call
     ([HandleEvent REQUEST_TYPE request_by_bob True, HandleEvent READY_TYPE ready_by_alice True,
       HandleEvent CANCEL_TYPE cancel_by_bob True] @
      [HandleEvent START_TYPE start_by_bob True, HandleEvent DONE_TYPE done_by_bob True])"
    by code_simp
  have p: "phase at_cancelled = PHASE_CANCELLED"
    by code_simp
  then have p': "phase (run alice_env
                   [HandleEvent REQUEST_TYPE request_by_bob True,
                    HandleEvent READY_TYPE ready_by_alice True,
                    HandleEvent CANCEL_TYPE cancel_by_bob True] new_VerificationRequest) =
                 PHASE_CANCELLED"
    by (simp add: at_cancelled_def)
  from terminal_phases [OF v disjI1 [OF p']] v p p'
  show ?thesis by simp
qed

text \<open>
  C5. Handling is idempotent under re-delivery. Let a request be reached from a new one by
  valid calls, one of which handled an event of type \<open>type\<close> from sender
  \<open>getSender ev\<close>. Handling a valid event \<open>ev'\<close> of the same type and the same sender
  (the same event in particular), live or not, returns without an exception, finds no
  new transition, leaves the phase as it is and emits no change notification.
\<close>

theorem redelivery_idempotent:
  assumes "list_all valid_call cs"
      and "HandleEvent type ev live \<in> set cs"
      and "valid_event type ev'" and "getSender ev' = getSender ev"
  shows "newTransitions env (storeEvent env type ev'
            (if live' then run env cs new_VerificationRequest
             else (run env cs new_VerificationRequest)\<lparr>observeOnly := True\<rparr>)) = [] \<and>
         fst (handleEvent env type ev' live' (run env cs new_VerificationRequest)) = Returned () \<and>
         phase (snd (handleEvent env type ev' live' (run env cs new_VerificationRequest))) =
           phase (run env cs new_VerificationRequest) \<and>
         changes (snd (handleEvent env type ev' live' (run env cs new_VerificationRequest))) =
           changes (run env cs new_VerificationRequest)"
proof -
  let ?r = "run env cs new_VerificationRequest"
  let ?r2 = "storeEvent env type ev' ?r"
  have i: "inv env ?r"
    by (rule inv_run [OF inv_new assms(1)])
  then have a: "no_props ?r" "slots_ok ?r" and s: "phase ?r = top_phase (calculatePhaseTransitions env ?r)"
    by (simp_all add: inv_def settled_def)
  have "recorded env ?r type (getSender ev')"
    using recorded_after [OF inv_new assms(1,2)] by (simp add: assms(4))
  then have "map t_phase (calculatePhaseTransitions env ?r2) =
             map t_phase (calculatePhaseTransitions env ?r)"
    by (rule store_recorded_phases [OF a(1)])
  then have "top_phase (calculatePhaseTransitions env ?r2) =
             top_phase (calculatePhaseTransitions env ?r)"
    using calc_nonempty [of env ?r2] calc_nonempty [of env ?r]
      last_map [of "calculatePhaseTransitions env ?r2" t_phase]
      last_map [of "calculatePhaseTransitions env ?r" t_phase]
    by (simp add: top_phase_def)
  with s have "phase ?r2 = top_phase (calculatePhaseTransitions env ?r2)"
    by simp
  then have n: "newTransitions env ?r2 = []"
    using a(1) by (intro newTransitions_settled) (simp add: storeEvent_no_props)
  have n': "newTransitions env (storeEvent env type ev'
              (if live' then ?r else ?r\<lparr>observeOnly := True\<rparr>)) = newTransitions env ?r2"
    by (rule newTransitions_cong) (simp_all add: storeEvent_observe)
  note e = handleEvent_effect [OF a assms(3), of env live']
  show ?thesis
    using e(1) e(5) [OF n] n n' by simp
qed

theorem redelivery_idempotent_witness:
  "list_all valid_call [HandleEvent REQUEST_TYPE request_by_bob True,
                        HandleEvent READY_TYPE ready_by_alice True] \<and>
   valid_event REQUEST_TYPE request_by_bob \<and>
   newTransitions alice_env (storeEvent alice_env REQUEST_TYPE request_by_bob at_ready) = [] \<and>
   phase (snd (handleEvent alice_env REQUEST_TYPE request_by_bob True at_ready)) = phase at_ready \<and>
   changes (snd (handleEvent alice_env REQUEST_TYPE request_by_bob True at_ready)) =
     changes at_ready"
proof -
  have v: "list_all valid_call [HandleEvent REQUEST_TYPE request_by_bob True,
                                HandleEvent READY_TYPE ready_by_alice True]"
    by code_simp
  have m: "HandleEvent REQUEST_TYPE request_by_bob True \<in>
           set [HandleEvent REQUEST_TYPE request_by_bob True,
                HandleEvent READY_TYPE ready_by_alice True]"
    by simp
  have e: "valid_event REQUEST_TYPE request_by_bob"
    by code_simp
  from redelivery_idempotent [OF v m e refl, of alice_env True] v e
  show ?thesis by (simp add: at_ready_def)
qed

text \<open>
  C6 as stated does not hold. On a channel whose other user is the local user herself, a
  new request handles the echo of the request sent by the local device and then the
  ready event of another device of the same user (both valid and live). The two sides
  are told apart by the user id alone, so the ready event is filed with the local side
  and is not the ready of the other party: the phase stays requested and
  \<open>commonMethods\<close> stays empty, although the ready event, the last of the two that the
  local device did not send, advertises \<^verbatim>\<open>m.sas.v1\<close>, which the registry knows.
\<close>

theorem self_verification_pair_counterexample:
  "valid_event REQUEST_TYPE request_by_alice \<and> valid_event READY_TYPE ready_by_other_device \<and>
   getSender request_by_alice = getUserId self_env \<and>
   getSender ready_by_other_device = userId self_env \<and>
   wasSentByOwnDevice self_env request_by_alice \<and>
   \<not> wasSentByOwnDevice self_env ready_by_other_device \<and>
   getContent ready_by_other_device =
     Some \<lparr>methods = Some [''m.sas.v1''], from_device = Some ''ALICEPHONE'', c_method = None,
           c_code = None, c_reason = None\<rparr> \<and>
   filter (has_method self_env) [''m.sas.v1''] = [''m.sas.v1''] \<and>
   phase after_self_pair = PHASE_REQUESTED \<and> commonMethods after_self_pair = []"
  by code_simp

text \<open>
  C6, amended: the two parties are different users. A new request handles a valid
  request event and a valid ready event, one sent by the local user and one by the
  channel's other user, who is not the local user, in either order of delivery. Then
  the phase is ready, and \<open>commonMethods\<close> is, as a set, the intersection of the keys of
  the local registry with the methods \<open>ms\<close> of the last of the two events (in the order
  request, ready) that the local device did not send: the ready event, unless the local
  device sent it, and the request event then.
\<close>

theorem commonMethods_intersection:
  assumes "valid_event REQUEST_TYPE req" and "valid_event READY_TYPE rdy"
      and "getUserId env \<noteq> userId env"
      and "(getSender req = getUserId env \<and> getSender rdy = userId env) \<or>
           (getSender req = userId env \<and> getSender rdy = getUserId env)"
      and "cs = [HandleEvent REQUEST_TYPE req l1, HandleEvent READY_TYPE rdy l2] \<or>
           cs = [HandleEvent READY_TYPE rdy l2, HandleEvent REQUEST_TYPE req l1]"
      and "getContent (if wasSentByOwnDevice env rdy then req else rdy) = Some c"
      and "methods c = Some ms"
  shows "phase (run env cs new_VerificationRequest) = PHASE_READY \<and>
         set (commonMethods (run env cs new_VerificationRequest)) =
           set ms \<inter> set (map fst (verificationMethods env))"
proof -
  from valid_event_methods [OF assms(1)] obtain cq mq
    where q: "getContent req = Some cq" "methods cq = Some mq"
    by (auto simp: has_methods_def split: option.splits)
  from valid_event_methods [OF assms(2)] obtain cr mr
    where r: "getContent rdy = Some cr" "methods cr = Some mr"
    by (auto simp: has_methods_def split: option.splits)
  have ms: "ms = (if wasSentByOwnDevice env rdy then mq else mr)"
    using assms(6,7) q r by (auto split: if_splits)
  have own: "getSender rdy = userId env \<Longrightarrow> \<not> wasSentByOwnDevice env rdy"
    using assms(3) by (intro not_own_device) simp
  have "phase (run env cs new_VerificationRequest) = PHASE_READY \<and>
        commonMethods (run env cs new_VerificationRequest) = filter (has_method env) ms"
    using assms(4,5) own
      pair_in_order_us [OF q r assms(3), of l1 l2]
      pair_in_order_them [OF q r assms(3), of l1 l2]
      pair_out_of_order_us [OF q r assms(3), of l2 l1]
      pair_out_of_order_them [OF q r assms(3), of l2 l1]
    unfolding ms by (elim disjE conjE) simp_all
  then show ?thesis
    by (auto simp: has_method_keys)
qed

theorem commonMethods_intersection_witness:
  "valid_event REQUEST_TYPE request_by_bob \<and> valid_event READY_TYPE ready_by_alice \<and>
   methods \<lparr>methods = Some [''m.sas.v1'', ''m.qr_code.show.v1''],
            from_device = Some ''BOBDEVICE'', c_method = None, c_code = None,
            c_reason = None\<rparr> = Some [''m.sas.v1'', ''m.qr_code.show.v1''] \<and>
   phase at_ready = PHASE_READY \<and> set (commonMethods at_ready) = {''m.sas.v1''}"
proof -
  have v: "valid_event REQUEST_TYPE request_by_bob" "valid_event READY_TYPE ready_by_alice"
    by code_simp+
  have u: "getUserId alice_env \<noteq> userId alice_env"
    by code_simp
  have s: "(getSender request_by_bob = getUserId alice_env \<and>
            getSender ready_by_alice = userId alice_env) \<or>
           (getSender request_by_bob = userId alice_env \<and>
            getSender ready_by_alice = getUserId alice_env)"
    by code_simp
  have c: "getContent (if wasSentByOwnDevice alice_env ready_by_alice then request_by_bob
                       else ready_by_alice) =
           Some \<lparr>methods = Some [''m.sas.v1'', ''m.qr_code.show.v1''],
                 from_device = Some ''BOBDEVICE'', c_method = None, c_code = None,
                 c_reason = None\<rparr>"
    by code_simp
  have m: "methods \<lparr>methods = Some [''m.sas.v1'', ''m.qr_code.show.v1''],
                    from_device = Some ''BOBDEVICE'', c_method = None, c_code = None,
                    c_reason = None\<rparr> = Some [''m.sas.v1'', ''m.qr_code.show.v1'']"
    by simp
  have k: "{''m.sas.v1'', ''m.qr_code.show.v1''} \<inter> fst ` set (verificationMethods alice_env) =
           {''m.sas.v1''}"
    by (auto simp: alice_env_def)
  from commonMethods_intersection [OF v u s disjI1 [OF refl] c m, of True True]
  show ?thesis
    using v m by (simp add: at_ready_def k)
qed

text \<open>
  C7. \<^verbatim>\<open>beginKeyVerification\<close> with a method outside the common methods should throw the
  unknown-method error. The code does not get that far: on a request that is not
  observe-only and has no verifier it first calls \<^verbatim>\<open>this._hasValidPreStartPhase()\<close>, a
  method that is defined nowhere, and that call throws a \<^verbatim>\<open>TypeError\<close>. Alice's request
  at the ready phase is not observe-only, has no verifier and has the common methods
  \<^verbatim>\<open>["m.sas.v1"]\<close>; beginning a verification with \<^verbatim>\<open>m.qr_code.show.v1\<close> throws a
  \<^verbatim>\<open>TypeError\<close>, not the unknown-method error (the request is left without a verifier).
\<close>

theorem beginKeyVerification_throws_TypeError:
  "\<not> observeOnly at_ready \<and> verifier at_ready = None \<and> phase at_ready = PHASE_READY \<and>
   commonMethods at_ready = [''m.sas.v1''] \<and>
   ''m.qr_code.show.v1'' \<notin> set (commonMethods at_ready) \<and>
   fst (beginKeyVerification alice_env ''m.qr_code.show.v1'' None at_ready) = Thrown TypeError \<and>
   fst (beginKeyVerification alice_env ''m.qr_code.show.v1'' None at_ready) \<noteq>
     Thrown UnknownMethodError \<and>
   verifier (snd (beginKeyVerification alice_env ''m.qr_code.show.v1'' None at_ready)) = None"
  by code_simp

text \<open>
  C8 as stated does not hold. The timing rule is one of four independent rules: an event
  whose type is outside the namespace, with the request content of Bob and a timestamp
  equal to the clock (\<open>elapsed = 0\<close>, inside the window), is rejected.
\<close>

theorem validateEvent_in_window_counterexample:
  "\<not> prefix EVENT_PREFIX unrelated_type \<and>
   validateEvent unrelated_type request_by_bob (Some 1000000) 1000000 = Returned False \<and>
   \<not> ((1000000::int) - 1000000 > 600000 - 3000 \<or> (1000000::int) - 1000000 < - (600000 div 2))"
  by code_simp

text \<open>
  C8, amended: for events that pass the other three rules. Let the type be in the
  namespace, let the content carry an array of methods if the type is request or ready,
  and a non-empty string \<^verbatim>\<open>from_device\<close> if the type is request, ready or start. With a
  finite timestamp \<open>ts\<close> (in whole milliseconds) and \<open>elapsed = now - ts\<close>, the validator
  returns, and it rejects the event exactly when \<open>elapsed > 600000 - 3000\<close> or
  \<open>elapsed < -(600000 / 2)\<close>; without a timestamp it accepts the event. The witness has
  both bounds: \<open>elapsed\<close> of 597000 and of -300000 are accepted, 597001 and -300001 are
  rejected, and so is a timestamp twenty minutes in the past.
\<close>

theorem validateEvent_timing:
  assumes "prefix EVENT_PREFIX type"
      and "type = REQUEST_TYPE \<or> type = READY_TYPE \<Longrightarrow>
           \<exists>c ms. getContent ev = Some c \<and> methods c = Some ms"
      and "type = REQUEST_TYPE \<or> type = READY_TYPE \<or> type = START_TYPE \<Longrightarrow>
           \<exists>c d. getContent ev = Some c \<and> from_device c = Some d \<and> d \<noteq> []"
  shows "validateEvent type ev (Some ts) now =
           Returned (\<not> (now - ts > 600000 - 3000 \<or> now - ts < - (600000 div 2))) \<and>
         validateEvent type ev None now = Returned True"
proof (cases "type = REQUEST_TYPE \<or> type = READY_TYPE \<or> type = START_TYPE")
  case True
  with assms(3) obtain c d where c: "getContent ev = Some c" "from_device c = Some d" "d \<noteq> []"
    by blast
  have m: "type = REQUEST_TYPE \<or> type = READY_TYPE \<Longrightarrow> methods c \<noteq> None"
    using assms(2) c(1) by auto
  show ?thesis
    using assms(1) c m
    by (auto simp: validateEvent_def VERIFICATION_REQUEST_TIMEOUT_def
        VERIFICATION_REQUEST_MARGIN_def Let_def)
next
  case False
  with assms(1) show ?thesis
    by (auto simp: validateEvent_def VERIFICATION_REQUEST_TIMEOUT_def
        VERIFICATION_REQUEST_MARGIN_def Let_def split: option.splits)
qed

theorem validateEvent_timing_witness:
  "prefix EVENT_PREFIX REQUEST_TYPE \<and>
   validateEvent REQUEST_TYPE request_by_bob None 1000000 = Returned True \<and>
   validateEvent REQUEST_TYPE request_by_bob (Some 403000) 1000000 = Returned True \<and>
   validateEvent REQUEST_TYPE request_by_bob (Some 402999) 1000000 = Returned False \<and>
   validateEvent REQUEST_TYPE request_by_bob (Some 1300000) 1000000 = Returned True \<and>
   validateEvent REQUEST_TYPE request_by_bob (Some 1300001) 1000000 = Returned False \<and>
   validateEvent REQUEST_TYPE request_by_bob (Some 0) (20 * 60 * 1000) = Returned False"
proof -
  have p: "prefix EVENT_PREFIX REQUEST_TYPE"
    by (simp add: REQUEST_TYPE_def)
  have m: "REQUEST_TYPE = REQUEST_TYPE \<or> REQUEST_TYPE = READY_TYPE \<Longrightarrow>
           \<exists>c ms. getContent request_by_bob = Some c \<and> methods c = Some ms"
    by (simp add: request_by_bob_def)
  have d: "REQUEST_TYPE = REQUEST_TYPE \<or> REQUEST_TYPE = READY_TYPE \<or> REQUEST_TYPE = START_TYPE \<Longrightarrow>
           \<exists>c d. getContent request_by_bob = Some c \<and> from_device c = Some d \<and> d \<noteq> []"
    by (simp add: request_by_bob_def)
  note t = validateEvent_timing [OF p m d]
  from t [of 403000 1000000] t [of 402999 1000000] t [of 1300000 1000000]
    t [of 1300001 1000000] t [of 0 "20 * 60 * 1000"] p
  show ?thesis by simp
qed

text \<open>
  C9 as stated does not hold. A request event sent by the local user from the local
  device (the echo of Alice's own request, valid and delivered live) brings the phase to
  requested and leaves \<open>observeOnly\<close> false; \<^verbatim>\<open>accept()\<close> then sends a ready event and
  \<^verbatim>\<open>cancel()\<close> records the cancelling user and sends a cancellation.
\<close>

theorem own_device_request_counterexample:
  "wasSentByOwnUser alice_env request_by_alice \<and> wasSentByOwnDevice alice_env request_by_alice \<and>
   validateEvent REQUEST_TYPE request_by_alice None 0 = Returned True \<and>
   phase after_own_request = PHASE_REQUESTED \<and> \<not> observeOnly after_own_request \<and>
   sent (accept alice_env after_own_request) = [(READY_TYPE, Methods [''m.sas.v1''])] \<and>
   sent (cancel alice_env None None after_own_request) =
     [(CANCEL_TYPE, CancelInfo ''m.user'' ''User declined'')] \<and>
   cancellingUserId (cancel alice_env None None after_own_request) = Some ''@alice:example.org''"
  by code_simp

text \<open>
  C9, amended: the device differs. When a new request handles a valid request event
  whose sender is the local user and whose \<^verbatim>\<open>from_device\<close> is not the local device id, the
  phase becomes requested with \<open>observeOnly\<close> true, and \<^verbatim>\<open>accept()\<close> and \<^verbatim>\<open>cancel()\<close>
  then leave the request as it is (nothing is sent).
\<close>

theorem other_device_request_observed:
  assumes "valid_event REQUEST_TYPE ev"
      and "wasSentByOwnUser env ev" and "\<not> wasSentByOwnDevice env ev"
  shows "fst (handleEvent env REQUEST_TYPE ev live new_VerificationRequest) = Returned () \<and>
         phase (snd (handleEvent env REQUEST_TYPE ev live new_VerificationRequest)) =
           PHASE_REQUESTED \<and>
         observeOnly (snd (handleEvent env REQUEST_TYPE ev live new_VerificationRequest)) \<and>
         accept env (snd (handleEvent env REQUEST_TYPE ev live new_VerificationRequest)) =
           snd (handleEvent env REQUEST_TYPE ev live new_VerificationRequest) \<and>
         cancel env reason code (snd (handleEvent env REQUEST_TYPE ev live new_VerificationRequest)) =
           snd (handleEvent env REQUEST_TYPE ev live new_VerificationRequest)"
proof -
  from assms(2) have s: "getSender ev = getUserId env \<or> getSender ev = userId env"
    by (simp add: wasSentByOwnUser_def)
  from first_request [OF assms(1) s, of live] obtain c ms where
    h: "handleEvent env REQUEST_TYPE ev live new_VerificationRequest =
         (Returned (),
          setPhase PHASE_REQUESTED True
            ((storeEvent env REQUEST_TYPE ev new_VerificationRequest)
               \<lparr>commonMethods :=
                  (if wasSentByOwnDevice env ev then [] else filter (has_method env) ms),
                observeOnly :=
                  (\<not> live \<or> (wasSentByOwnUser env ev \<and> \<not> wasSentByOwnDevice env ev))\<rparr>))"
    by blast
  show ?thesis
    unfolding h using assms(2,3)
    by (simp add: setPhase_def accept_def cancel_def)
qed

theorem other_device_request_observed_witness:
  "valid_event REQUEST_TYPE request_by_other_device \<and>
   wasSentByOwnUser alice_env request_by_other_device \<and>
   \<not> wasSentByOwnDevice alice_env request_by_other_device \<and>
   phase (snd (handleEvent alice_env REQUEST_TYPE request_by_other_device True
                 new_VerificationRequest)) = PHASE_REQUESTED \<and>
   observeOnly (snd (handleEvent alice_env REQUEST_TYPE request_by_other_device True
                       new_VerificationRequest))"
proof -
  have h: "valid_event REQUEST_TYPE request_by_other_device"
    "wasSentByOwnUser alice_env request_by_other_device"
    "\<not> wasSentByOwnDevice alice_env request_by_other_device"
    by code_simp+
  from other_device_request_observed [OF h, of True None None] h
  show ?thesis by simp
qed

text \<open>
  C10. \<open>observeOnly\<close> is monotone. It is false in a new request, and none of
  \<^verbatim>\<open>handleEvent\<close>, \<^verbatim>\<open>_transitionToPhase\<close>, \<^verbatim>\<open>beginKeyVerification\<close>, \<^verbatim>\<open>sendRequest\<close>,
  \<^verbatim>\<open>cancel\<close> and \<^verbatim>\<open>accept\<close> turns it from true to false, whether the call returns or
  throws.
\<close>

theorem observeOnly_monotone:
  "\<not> observeOnly new_VerificationRequest \<and>
   (observeOnly r \<longrightarrow> observeOnly (snd (handleEvent env type ev live r))) \<and>
   (observeOnly r \<longrightarrow> observeOnly (snd (transitionToPhase env t r))) \<and>
   (observeOnly r \<longrightarrow> observeOnly (snd (beginKeyVerification env meth targetDevice r))) \<and>
   (observeOnly r \<longrightarrow> observeOnly (sendRequest env r)) \<and>
   (observeOnly r \<longrightarrow> observeOnly (cancel env reason code r)) \<and>
   (observeOnly r \<longrightarrow> observeOnly (accept env r))"
proof -
  have "\<not> observeOnly new_VerificationRequest"
    by (simp add: new_VerificationRequest_def)
  moreover have "observeOnly r \<longrightarrow> observeOnly (snd (handleEvent env type ev live r))"
    by (simp add: handleEvent_observeOnly)
  moreover have "observeOnly r \<longrightarrow> observeOnly (snd (transitionToPhase env t r))"
    by (simp add: transitionToPhase_observeOnly)
  moreover have "observeOnly r \<longrightarrow> observeOnly (snd (beginKeyVerification env meth targetDevice r))"
    by (simp add: beginKeyVerification_def hasValidPreStartPhase_def)
  moreover have "observeOnly r \<longrightarrow> observeOnly (sendRequest env r)"
    by (simp add: sendRequest_def)
  moreover have "observeOnly r \<longrightarrow> observeOnly (cancel env reason code r)"
    by (simp add: cancel_def)
  moreover have "observeOnly r \<longrightarrow> observeOnly (accept env r)"
    by (simp add: accept_def)
  ultimately show ?thesis by blast
qed

theorem observeOnly_monotone_witness:
  "observeOnly historical_request \<and> \<not> wasSentByOwnDevice alice_env request_by_bob \<and>
   wasSentByOwnDevice alice_env ready_by_alice \<and>
   observeOnly (snd (handleEvent alice_env READY_TYPE ready_by_alice True historical_request))"
proof -
  have h: "observeOnly historical_request" "\<not> wasSentByOwnDevice alice_env request_by_bob"
    "wasSentByOwnDevice alice_env ready_by_alice"
    by code_simp+
  from observeOnly_monotone [where r = historical_request and env = alice_env
      and type = READY_TYPE and ev = ready_by_alice and live = True] h
  show ?thesis by blast
qed

end
